theory Spec2Isabelle
  imports Main "HOL-Library.Sublist"
begin

section \<open>The environment of the supervisor\<close>

text \<open>
  The script \<^verbatim>\<open>simple_daemon_test.py\<close> talks to three things outside itself: the
  file system (the PID file and the log files), the wall clock (\<^verbatim>\<open>datetime.now()\<close>)
  and the process table (\<^verbatim>\<open>os.kill\<close>, \<^verbatim>\<open>os.getpid\<close>). The file system is state that
  the functions pass along; the clock and the process table are read from an
  environment that the program does not control.

  \<^item> The state of the process that a pid names, at the moment of one \<^verbatim>\<open>os.kill\<close> call:
    no such process, a process the caller may signal, or a process that is alive
    but belongs to another user.
  \<^item> The exceptions of Python that the script can meet.
\<close>

datatype pstate = Gone | Alive_Own | Alive_Foreign

datatype exn =
    ValueError string
  | OverflowError
  | ProcessLookupError
  | PermissionError
  | OperationalError
  | KeyboardInterrupt
  | SystemExit nat

text \<open>\<^verbatim>\<open>except OSError\<close> and \<^verbatim>\<open>except Exception\<close>, by Python's class hierarchy.\<close>

fun is_OSError :: "exn \<Rightarrow> bool" where
  "is_OSError ProcessLookupError = True"
| "is_OSError PermissionError = True"
| "is_OSError _ = False"

fun is_Exception :: "exn \<Rightarrow> bool" where
  "is_Exception KeyboardInterrupt = False"
| "is_Exception (SystemExit _) = False"
| "is_Exception _ = True"

text \<open>\<^verbatim>\<open>str(e)\<close> for the exceptions above.\<close>

fun str_exn :: "exn \<Rightarrow> string" where
  "str_exn (ValueError m) = m"
| "str_exn OverflowError = ''signed integer is greater than maximum''"
| "str_exn ProcessLookupError = ''[Errno 3] No such process''"
| "str_exn PermissionError = ''[Errno 1] Operation not permitted''"
| "str_exn OperationalError = ''could not connect to server''"
| "str_exn KeyboardInterrupt = ''''"
| "str_exn (SystemExit n) = ''''"

text \<open>
  One entry of a log is one call of \<^verbatim>\<open>SimpleDaemon.log\<close>: the clock reading (wall
  clock, in seconds) and the message.

  The content of the PID file is kept by what \<^verbatim>\<open>int(f.read().strip())\<close> makes of it:
  \<open>Pid p\<close> is any text that \<^verbatim>\<open>int\<close> reads as the integer \<open>p\<close> (so \<^verbatim>\<open>str(os.getpid())\<close>
  is \<open>Pid\<close> of that pid), \<open>Malformed\<close> is any text on which \<^verbatim>\<open>int\<close> raises
  \<^verbatim>\<open>ValueError\<close> (an empty file, letters). \<open>Lines es\<close> is what the file holds once log
  lines were appended to it, which happens when \<^verbatim>\<open>--log\<close> names the PID file itself:
  whatever was there, followed by the entries \<open>es\<close>. A log line starts with a bracket,
  so \<^verbatim>\<open>int\<close> raises \<^verbatim>\<open>ValueError\<close> on such a text as well.
\<close>

type_synonym entry = "nat \<times> string"

datatype pid_content = Pid int | Malformed | Lines "entry list"

fun read_pid :: "pid_content \<Rightarrow> exn + int" where
  "read_pid (Pid p) = Inr p"
| "read_pid Malformed = Inl (ValueError ''invalid literal for int() with base 10'')"
| "read_pid (Lines es) = Inl (ValueError ''invalid literal for int() with base 10'')"

text \<open>
  A log file is the list of the entries written to it, oldest first. Log files are kept
  by path, since \<^verbatim>\<open>--log\<close> chooses the path the daemon writes while \<^verbatim>\<open>status\<close> always
  reads \<^verbatim>\<open>daemon_test.log\<close>. The PID file has the fixed name \<^verbatim>\<open>daemon_test.pid\<close>. The
  field \<open>pid_file\<close> is the file of that name, and \<open>logs\<close> holds the files of all other
  names (its value at \<^verbatim>\<open>daemon_test.pid\<close> is never read or written): a daemon whose log
  path is \<^verbatim>\<open>daemon_test.pid\<close> appends its lines to the PID file. A file is known by its
  path as it is written: two spellings of one path, and links, count as different
  files. Opening, writing and unlinking a file are taken to succeed.

  The trace lists the system calls made so far, in order. Its length is the time at
  which the process table is looked at.
\<close>

datatype syscall = Kill int nat | Sleep int

record world =
  pid_file :: "pid_content option"
  logs :: "string \<rightharpoonup> entry list"
  stdout :: "string list"
  trace :: "syscall list"
  reads :: nat

record env =
  getpid :: int
  clock :: "nat \<Rightarrow> nat"
  procs :: "nat \<Rightarrow> int \<Rightarrow> pstate"
  strftime :: "nat \<Rightarrow> string"
  absolute :: "string \<Rightarrow> string"

text \<open>
  \<open>clock e k\<close> is the \<open>k\<close>-th reading of \<^verbatim>\<open>datetime.now()\<close>, \<open>strftime e\<close> its rendering
  as \<^verbatim>\<open>%Y-%m-%d %H:%M:%S\<close>, \<open>procs e t pid\<close> the state of process \<open>pid\<close> at time
  \<open>t\<close>, \<open>absolute e\<close> what \<^verbatim>\<open>Path.absolute()\<close> prints for a relative path.
\<close>

subsection \<open>Library calls\<close>

definition newline :: char where
  "newline = CHR 0x0A"

fun str_nat :: "nat \<Rightarrow> string" where
  "str_nat n = (if n < 10 then [''0123456789'' ! n]
                else str_nat (n div 10) @ [''0123456789'' ! (n mod 10)])"

declare str_nat.simps [simp del]

definition str_int :: "int \<Rightarrow> string" where
  "str_int i = (if i < 0 then CHR ''-'' # str_nat (nat (- i)) else str_nat (nat i))"

definition print :: "string \<Rightarrow> world \<Rightarrow> world" where
  "print s w = w\<lparr>stdout := stdout w @ [s]\<rparr>"

text \<open>
  \<^verbatim>\<open>os.kill(pid, sig)\<close>. A pid that does not fit the C type \<^verbatim>\<open>pid_t\<close> (32 bits) is
  refused with \<^verbatim>\<open>OverflowError\<close> before any system call. Otherwise the call is made:
  it raises \<^verbatim>\<open>ProcessLookupError\<close> when there is no such process, \<^verbatim>\<open>PermissionError\<close>
  when the process belongs to another user, and returns when the signal was
  delivered. What the signal does to its target shows in the process table of later
  times. Pids below 1 name process groups; the theorems are about pids above 0.
\<close>

definition pid_t :: "int \<Rightarrow> bool" where
  "pid_t p = (- 2147483648 \<le> p \<and> p \<le> 2147483647)"

definition valid_pid :: "int \<Rightarrow> bool" where
  "valid_pid p = (0 < p \<and> pid_t p)"

definition os_kill :: "env \<Rightarrow> int \<Rightarrow> nat \<Rightarrow> world \<Rightarrow> (exn + unit) \<times> world" where
  "os_kill e pid sig w =
     (if \<not> pid_t pid then (Inl OverflowError, w)
      else let w' = w\<lparr>trace := trace w @ [Kill pid sig]\<rparr> in
        (case procs e (length (trace w)) pid of
           Gone \<Rightarrow> (Inl ProcessLookupError, w')
         | Alive_Foreign \<Rightarrow> (Inl PermissionError, w')
         | Alive_Own \<Rightarrow> (Inr (), w')))"

text \<open>A \<^verbatim>\<open>time.sleep\<close> that nothing interrupts (the control commands are short-lived).\<close>

definition slept :: "int \<Rightarrow> world \<Rightarrow> world" where
  "slept secs w = w\<lparr>trace := trace w @ [Sleep secs]\<rparr>"

text \<open>
  What can happen to the daemon while it is suspended in \<^verbatim>\<open>time.sleep\<close>: the sleep
  ends, the user interrupts (SIGINT, which Python turns into \<^verbatim>\<open>KeyboardInterrupt\<close>),
  or signal 15 or 9 arrives. The script installs no signal handler, so signals 15 and 9
  end the process on the spot, with no Python code run. A negative argument makes
  \<^verbatim>\<open>time.sleep\<close> raise \<^verbatim>\<open>ValueError\<close> at once.
\<close>

datatype event = Wake | SigInt | SigTerm | SigKill

datatype interruption = Exc exn | Sig nat

definition time_sleep :: "int \<Rightarrow> event \<Rightarrow> world \<Rightarrow> interruption + world" where
  "time_sleep secs ev w =
     (if secs < 0 then Inl (Exc (ValueError ''sleep length must be non-negative''))
      else case ev of
          Wake \<Rightarrow> Inr (slept secs w)
        | SigInt \<Rightarrow> Inl (Exc KeyboardInterrupt)
        | SigTerm \<Rightarrow> Inl (Sig 15)
        | SigKill \<Rightarrow> Inl (Sig 9))"

section \<open>SimpleDaemon\<close>

record daemon =
  log_file :: string
  check_interval :: int

definition SimpleDaemon :: "string \<Rightarrow> int \<Rightarrow> daemon" where
  "SimpleDaemon lf ci = \<lparr>log_file = lf, check_interval = ci\<rparr>"

definition pid_file_name :: string where
  "pid_file_name = ''daemon_test.pid''"

text \<open>\<^verbatim>\<open>log\<close>: read the clock, append one entry to the log file (mode \<^verbatim>\<open>'a'\<close> creates
  the file when it is missing), print the same line. The log file is the PID file when
  it has its name.\<close>

definition log :: "env \<Rightarrow> daemon \<Rightarrow> string \<Rightarrow> world \<Rightarrow> world" where
  "log e d message w =
     (let timestamp = clock e (reads w);
          w' = w\<lparr>stdout := stdout w @ [''['' @ strftime e timestamp @ ''] '' @ message],
                reads := Suc (reads w)\<rparr>
      in if log_file d = pid_file_name
         then w'\<lparr>pid_file :=
                  Some (Lines ((case pid_file w of Some (Lines es) \<Rightarrow> es | _ \<Rightarrow> [])
                               @ [(timestamp, message)]))\<rparr>
         else w'\<lparr>logs := (logs w)(log_file d \<mapsto>
                  (case logs w (log_file d) of None \<Rightarrow> [] | Some es \<Rightarrow> es)
                  @ [(timestamp, message)])\<rparr>)"

definition write_pid :: "env \<Rightarrow> daemon \<Rightarrow> world \<Rightarrow> world" where
  "write_pid e d w =
     log e d (''Daemon started with PID: '' @ str_int (getpid e))
       (w\<lparr>pid_file := Some (Pid (getpid e))\<rparr>)"

definition remove_pid :: "world \<Rightarrow> world" where
  "remove_pid w = (if pid_file w \<noteq> None then w\<lparr>pid_file := None\<rparr> else w)"

definition is_running :: "env \<Rightarrow> world \<Rightarrow> (exn + bool) \<times> world" where
  "is_running e w =
     (case pid_file w of
        None \<Rightarrow> (Inr False, w)
      | Some c \<Rightarrow>
         (case read_pid c of
            Inl x \<Rightarrow> (Inl x, w)
          | Inr pid \<Rightarrow>
             (case os_kill e pid 0 w of
                (Inr u, w1) \<Rightarrow> (Inr True, w1)
              | (Inl x, w1) \<Rightarrow>
                  if is_OSError x then (Inr False, remove_pid w1) else (Inl x, w1))))"

definition heartbeat :: "nat \<Rightarrow> string" where
  "heartbeat counter = ''Check #'' @ str_nat counter @ '': Daemon is alive and working!''"

text \<open>
  The \<^verbatim>\<open>while True\<close> loop. The list gives what happens at each \<^verbatim>\<open>time.sleep\<close>, one
  event for each iteration; when the list is used up the daemon is still running and
  the state is the one just after the last sleep. \<open>counter\<close> is the value before
  \<^verbatim>\<open>counter += 1\<close>.
\<close>

fun loop :: "env \<Rightarrow> daemon \<Rightarrow> nat \<Rightarrow> event list \<Rightarrow> world \<Rightarrow> interruption option \<times> world" where
  "loop e d counter [] w = (None, w)"
| "loop e d counter (ev # evs) w =
     (let w1 = log e d (heartbeat (counter + 1)) w in
      case time_sleep (check_interval d) ev w1 of
        Inl i \<Rightarrow> (Some i, w1)
      | Inr w2 \<Rightarrow> loop e d (counter + 1) evs w2)"

text \<open>
  How a command ends: it returns, it raises an exception that nobody catches, the
  process is ended by a signal, or (for the daemon, when the list of events is used up)
  it is still running. \<open>startup\<close> is the six \<^verbatim>\<open>log\<close> calls of \<^verbatim>\<open>run\<close> between
  \<^verbatim>\<open>write_pid\<close> and the loop, the first one innermost.
\<close>

datatype outcome = Returned | Raised exn | Killed nat | Running

definition startup :: "env \<Rightarrow> daemon \<Rightarrow> world \<Rightarrow> world" where
  "startup e d w =
     log e d (replicate 60 CHR ''='')
      (log e d (''PID file: '' @ absolute e pid_file_name)
       (log e d (''Log file: '' @ absolute e (log_file d))
        (log e d (''Check interval: '' @ str_int (check_interval d) @ '' seconds'')
         (log e d ''Simple Daemon Test Started''
          (log e d (replicate 60 CHR ''='') w)))))"

definition run :: "env \<Rightarrow> daemon \<Rightarrow> event list \<Rightarrow> world \<Rightarrow> outcome \<times> world" where
  "run e d evs w =
     (case is_running e w of
        (Inl x, w1) \<Rightarrow> (Raised x, w1)
      | (Inr True, w1) \<Rightarrow>
          (Raised (SystemExit 1),
           print (''ERROR: Daemon is already running (PID file: '' @ pid_file_name @ '')'') w1)
      | (Inr False, w1) \<Rightarrow>
          (case loop e d 0 evs (startup e d (write_pid e d w1)) of
             (None, w2) \<Rightarrow> (Running, w2)
           | (Some (Sig n), w2) \<Rightarrow> (Killed n, w2)
           | (Some (Exc x), w2) \<Rightarrow>
               if x = KeyboardInterrupt then
                 (Returned,
                  log e d ''Daemon stopped gracefully''
                   (remove_pid
                     (log e d (newline # ''Received interrupt signal, shutting down...'') w2)))
               else if is_Exception x then
                 (Raised x, remove_pid (log e d (''ERROR: '' @ str_exn x) w2))
               else (Raised x, w2)))"

section \<open>The control commands\<close>

text \<open>
  \<^verbatim>\<open>stop_daemon\<close>. The PID is read before the \<^verbatim>\<open>try\<close>. The inner \<^verbatim>\<open>try\<close> holds the
  probe and the forced kill, the outer one everything from the first signal on; both
  handlers catch \<^verbatim>\<open>OSError\<close> only, and both paths end by unlinking the PID file if it
  exists.
\<close>

definition unlink_if_exists :: "world \<Rightarrow> world" where
  "unlink_if_exists w = (if pid_file w \<noteq> None then w\<lparr>pid_file := None\<rparr> else w)"

definition stop_outer_handler :: "exn \<Rightarrow> world \<Rightarrow> (exn + unit) \<times> world" where
  "stop_outer_handler x w =
     (if is_OSError x
      then (Inr (), unlink_if_exists (print (''Error stopping daemon: '' @ str_exn x) w))
      else (Inl x, w))"

definition stop_inner_handler :: "exn \<Rightarrow> world \<Rightarrow> (exn + unit) \<times> world" where
  "stop_inner_handler x w =
     (if is_OSError x
      then (Inr (), unlink_if_exists (print ''Daemon stopped successfully'' w))
      else stop_outer_handler x w)"

definition stop_daemon :: "env \<Rightarrow> world \<Rightarrow> (exn + unit) \<times> world" where
  "stop_daemon e w =
     (case pid_file w of
        None \<Rightarrow> (Inr (), print ''No daemon running (PID file not found)'' w)
      | Some c \<Rightarrow>
         (case read_pid c of
            Inl x \<Rightarrow> (Inl x, w)
          | Inr pid \<Rightarrow>
             (case os_kill e pid 15
                     (print (''Stopping daemon with PID '' @ str_int pid @ ''...'') w) of
                (Inl x, w1) \<Rightarrow> stop_outer_handler x w1
              | (Inr u, w1) \<Rightarrow>
                 (case os_kill e pid 0 (slept 2 w1) of
                    (Inl x, w2) \<Rightarrow> stop_inner_handler x w2
                  | (Inr u, w2) \<Rightarrow>
                     (case os_kill e pid 9
                             (print ''Warning: Process still running, forcing kill...'' w2) of
                        (Inl x, w3) \<Rightarrow> stop_inner_handler x w3
                      | (Inr u, w3) \<Rightarrow> (Inr (), unlink_if_exists w3))))))"

text \<open>
  \<^verbatim>\<open>status_daemon\<close> prints the last five lines of \<^verbatim>\<open>daemon_test.log\<close>, whatever log
  path the daemon was started with (\<open>show_log\<close> is this part of it). The text of a log
  file is its entries as \<^verbatim>\<open>log\<close> wrote them; \<^verbatim>\<open>readlines\<close> cuts it after every newline
  (the messages hold no carriage return), and \<^verbatim>\<open>rstrip\<close> removes the ASCII white space
  at the end of a line.
\<close>

definition file_text :: "env \<Rightarrow> entry list \<Rightarrow> string" where
  "file_text e es =
     concat (map (\<lambda>(ts, m). ''['' @ strftime e ts @ ''] '' @ m @ [newline]) es)"

fun split_lines :: "string \<Rightarrow> string \<Rightarrow> string list" where
  "split_lines cur [] = (if cur = [] then [] else [cur])"
| "split_lines cur (c # cs) =
     (if c = newline then (cur @ [c]) # split_lines [] cs else split_lines (cur @ [c]) cs)"

definition readlines :: "string \<Rightarrow> string list" where
  "readlines s = split_lines [] s"

definition is_space :: "char \<Rightarrow> bool" where
  "is_space c = (c \<in> set [CHR '' '', CHR 0x09, CHR 0x0A, CHR 0x0B, CHR 0x0C, CHR 0x0D,
                            CHR 0x1C, CHR 0x1D, CHR 0x1E, CHR 0x1F])"

definition rstrip :: "string \<Rightarrow> string" where
  "rstrip s = rev (dropWhile is_space (rev s))"

definition last5 :: "'a list \<Rightarrow> 'a list" where
  "last5 xs = drop (length xs - 5) xs"

definition show_log :: "env \<Rightarrow> world \<Rightarrow> world" where
  "show_log e w =
     (case logs w ''daemon_test.log'' of
        None \<Rightarrow> w
      | Some es \<Rightarrow>
          fold (\<lambda>line. print (rstrip line)) (last5 (readlines (file_text e es)))
            (print (replicate 60 CHR ''-'') (print (newline # ''Last 5 log entries:'') w)))"

definition status_daemon :: "env \<Rightarrow> world \<Rightarrow> (exn + unit) \<times> world" where
  "status_daemon e w =
     (case pid_file w of
        None \<Rightarrow> (Inr (), print ''Daemon is NOT running (no PID file)'' w)
      | Some c \<Rightarrow>
         (case read_pid c of
            Inl x \<Rightarrow> (Inl x, w)
          | Inr pid \<Rightarrow>
             (case os_kill e pid 0 w of
                (Inr u, w1) \<Rightarrow>
                  (Inr (), show_log e (print (''Daemon is RUNNING with PID '' @ str_int pid) w1))
              | (Inl x, w1) \<Rightarrow>
                  if is_OSError x
                  then (Inr (),
                        (print (''Daemon is NOT running (stale PID '' @ str_int pid @ '')'') w1)
                          \<lparr>pid_file := None\<rparr>)
                  else (Inl x, w1))))"

subsection \<open>The command line\<close>

datatype action = Start | Stop | Restart | Status

definition finished :: "(exn + unit) \<times> world \<Rightarrow> outcome \<times> world" where
  "finished r = (case r of (Inl x, w) \<Rightarrow> (Raised x, w) | (Inr u, w) \<Rightarrow> (Returned, w))"

definition main :: "env \<Rightarrow> action \<Rightarrow> string \<Rightarrow> int \<Rightarrow> event list \<Rightarrow> world \<Rightarrow> outcome \<times> world" where
  "main e a log_path interval evs w =
     (case a of
        Start \<Rightarrow> run e (SimpleDaemon log_path interval) evs w
      | Stop \<Rightarrow> finished (stop_daemon e w)
      | Restart \<Rightarrow>
         (case stop_daemon e (print ''Stopping daemon...'' w) of
            (Inl x, w1) \<Rightarrow> (Raised x, w1)
          | (Inr u, w1) \<Rightarrow>
              run e (SimpleDaemon log_path interval) evs
                (print ''Starting daemon...'' (slept 2 w1)))
      | Status \<Rightarrow> finished (status_daemon e w))"

text \<open>
  The exit status of the interpreter: 0 when the script runs to its end, the argument
  of \<^verbatim>\<open>sys.exit\<close>, 1 for any other exception that nobody caught. A process ended by a
  signal has no exit status of its own; the shell reports 128 plus the signal. A
  daemon that is still running has none yet.
\<close>

fun exit_status :: "outcome \<Rightarrow> nat option" where
  "exit_status Returned = Some 0"
| "exit_status (Raised (SystemExit n)) = Some n"
| "exit_status (Raised x) = Some 1"
| "exit_status (Killed n) = Some (128 + n)"
| "exit_status Running = None"

section \<open>Sample registration\<close>

text \<open>
  \<^verbatim>\<open>script.py\<close> keeps samples in the table \<^verbatim>\<open>scRNAseq_Samples\<close>. The table is the list
  of its rows in the order of insertion; a row is its \<^verbatim>\<open>SampleName\<close> and the other
  eighteen columns, which the two functions only pass on (type \<open>'c\<close>). The check
  query \<^verbatim>\<open>SELECT SampleName ... WHERE SampleName = :sample_name\<close> with \<^verbatim>\<open>fetchone()\<close>
  finds a row exactly when some row has that name.

  \<^verbatim>\<open>connect_db\<close> gives no engine (\<open>NoEngine\<close>), an engine whose server cannot be
  reached, so that \<^verbatim>\<open>engine.begin()\<close> raises (\<open>Unreachable\<close>), or a working one
  (\<open>Up\<close>). Statements sent to a working server are taken to succeed.
\<close>

datatype conn = NoEngine | Unreachable | Up

datatype ui = Warning string | Success string | Error string | StatusText string

record 'c store =
  table :: "(string \<times> 'c) list"
  shown :: "ui list"

definition sample_exists :: "(string \<times> 'c) list \<Rightarrow> string \<Rightarrow> bool" where
  "sample_exists tbl sample_name = (sample_name \<in> set (map fst tbl))"

definition st :: "ui \<Rightarrow> 'c store \<Rightarrow> 'c store" where
  "st m s = s\<lparr>shown := shown s @ [m]\<rparr>"

definition quoted :: "string \<Rightarrow> string" where
  "quoted n = CHR 0x27 # n @ [CHR 0x27]"

definition register_sample :: "conn \<Rightarrow> string \<times> 'c \<Rightarrow> 'c store \<Rightarrow> bool \<times> 'c store" where
  "register_sample c sample_data s =
     (case c of
        NoEngine \<Rightarrow> (False, st (Error ''Database connection failed'') s)
      | Unreachable \<Rightarrow>
          (False, st (Error (''Error registering sample: '' @ str_exn OperationalError)) s)
      | Up \<Rightarrow>
          if sample_exists (table s) (fst sample_data)
          then (False, st (Warning (''Sample '' @ quoted (fst sample_data) @ '' already exists!'')) s)
          else (True,
                st (Success (''Sample '' @ quoted (fst sample_data) @ '' registered successfully!''))
                  (s\<lparr>table := table s @ [sample_data]\<rparr>)))"

text \<open>
  A row of the uploaded DataFrame is \<^verbatim>\<open>str(row["SampleName"])\<close> and the outcome of
  building the parameters of the insert: the eighteen converted columns, or the
  exception that \<^verbatim>\<open>float\<close>, \<^verbatim>\<open>int\<close> or \<^verbatim>\<open>pd.to_datetime\<close> raised. The conversions run
  after the check query and only when no row was found. The progress bar is left out.
\<close>

definition strip :: "string \<Rightarrow> string" where
  "strip s = rstrip (dropWhile is_space s)"

record 'c upload =
  inserted :: nat
  skipped :: nat
  errors :: "string list"
  rows :: "(string \<times> 'c) list"
  texts :: "ui list"

definition bulk_row :: "string \<times> (exn + 'c) \<Rightarrow> 'c upload \<Rightarrow> 'c upload" where
  "bulk_row row u =
     (let sample_name = strip (fst row) in
      if sample_exists (rows u) sample_name
      then u\<lparr>skipped := skipped u + 1,
             texts := texts u @ [StatusText (''Skipped: '' @ sample_name @ '' (already exists)'')]\<rparr>
      else case snd row of
          Inr cols \<Rightarrow>
            u\<lparr>rows := rows u @ [(sample_name, cols)],
              inserted := inserted u + 1,
              texts := texts u @ [StatusText (''Inserted: '' @ sample_name)]\<rparr>
        | Inl x \<Rightarrow>
            u\<lparr>errors := errors u @ [sample_name @ '': '' @ str_exn x],
              texts := texts u @ [StatusText (''Error with '' @ sample_name)]\<rparr>)"

definition bulk_loop :: "(string \<times> (exn + 'c)) list \<Rightarrow> (string \<times> 'c) list \<Rightarrow> 'c upload" where
  "bulk_loop df tbl =
     fold bulk_row df \<lparr>inserted = 0, skipped = 0, errors = [], rows = tbl, texts = []\<rparr>"

definition bulk_upload ::
    "conn \<Rightarrow> (string \<times> (exn + 'c)) list \<Rightarrow> 'c store \<Rightarrow> (exn + unit) \<times> 'c store" where
  "bulk_upload c df s =
     (case c of
        NoEngine \<Rightarrow> (Inr (), st (Error ''Database connection failed'') s)
      | Unreachable \<Rightarrow> (Inl OperationalError, s)
      | Up \<Rightarrow>
          (let u = bulk_loop df (table s) in
           (Inr (),
            s\<lparr>table := rows u,
              shown := shown s
                @ [Success (''Bulk upload complete: '' @ str_nat (inserted u) @ '' inserted, ''
                            @ str_nat (skipped u) @ '' skipped'')]
                @ map StatusText (errors u)\<rparr>)))"

section \<open>Notions used in the properties\<close>

text \<open>The log entries that the file of a path holds, none when the file does not
  exist; and whether the file exists.\<close>

definition log_of :: "world \<Rightarrow> string \<Rightarrow> entry list" where
  "log_of w p =
     (if p = pid_file_name
      then (case pid_file w of Some (Lines es) \<Rightarrow> es | _ \<Rightarrow> [])
      else (case logs w p of None \<Rightarrow> [] | Some es \<Rightarrow> es))"

definition file_exists :: "world \<Rightarrow> string \<Rightarrow> bool" where
  "file_exists w p = (if p = pid_file_name then pid_file w \<noteq> None else logs w p \<noteq> None)"

text \<open>The heartbeat entries of a log, the counter that a heartbeat line shows, and the
  number of entries that say the daemon stopped gracefully.\<close>

definition is_heartbeat :: "entry \<Rightarrow> bool" where
  "is_heartbeat en = prefix ''Check #'' (snd en)"

definition heartbeats :: "entry list \<Rightarrow> entry list" where
  "heartbeats es = filter is_heartbeat es"

definition is_digit :: "char \<Rightarrow> bool" where
  "is_digit c = (c \<in> set ''0123456789'')"

definition digit_val :: "char \<Rightarrow> nat" where
  "digit_val c = of_char c - 48"

definition counter_of :: "entry \<Rightarrow> nat" where
  "counter_of en = foldl (\<lambda>a c. 10 * a + digit_val c) 0 (takeWhile is_digit (drop 7 (snd en)))"

definition graceful_lines :: "entry list \<Rightarrow> nat" where
  "graceful_lines es = length (filter (\<lambda>en. snd en = ''Daemon stopped gracefully'') es)"

text \<open>The file of a path is there and its log still begins with the entries \<open>es\<close>.\<close>

definition kept :: "entry list \<Rightarrow> string \<Rightarrow> world \<Rightarrow> bool" where
  "kept es p w = (file_exists w p \<and> prefix es (log_of w p))"

definition reports_not_running :: "string \<Rightarrow> bool" where
  "reports_not_running s = prefix ''Daemon is NOT running'' s"

text \<open>The trace that \<^verbatim>\<open>stop\<close> adds for pid \<open>p\<close> when it starts at time \<open>t\<close>.\<close>

definition stop_calls :: "env \<Rightarrow> nat \<Rightarrow> int \<Rightarrow> syscall list" where
  "stop_calls e t p =
     (if procs e t p \<noteq> Alive_Own then [Kill p 15]
      else if procs e (t + 2) p \<noteq> Alive_Own then [Kill p 15, Sleep 2, Kill p 0]
      else [Kill p 15, Sleep 2, Kill p 0, Kill p 9])"

subsection \<open>Sample environments and states\<close>

definition env_of :: "(nat \<Rightarrow> int \<Rightarrow> pstate) \<Rightarrow> (nat \<Rightarrow> nat) \<Rightarrow> env" where
  "env_of pr cl = \<lparr>getpid = 5151, clock = cl, procs = pr, strftime = str_nat,
                   absolute = (\<lambda>p. ''/home/lab/'' @ p)\<rparr>"

definition nobody :: "nat \<Rightarrow> int \<Rightarrow> pstate" where
  "nobody t p = Gone"

definition own_4242 :: "nat \<Rightarrow> int \<Rightarrow> pstate" where
  "own_4242 t p = (if p = 4242 then Alive_Own else Gone)"

definition foreign_4242 :: "nat \<Rightarrow> int \<Rightarrow> pstate" where
  "foreign_4242 t p = (if p = 4242 then Alive_Foreign else Gone)"

definition steady :: "nat \<Rightarrow> nat" where
  "steady k = 1000 + 30 * k"

definition stepping_back :: "nat \<Rightarrow> nat" where
  "stepping_back k = 1000 - 30 * k"

definition fresh :: world where
  "fresh = \<lparr>pid_file = None, logs = Map.empty, stdout = [], trace = [], reads = 0\<rparr>"

definition recorded_4242 :: world where
  "recorded_4242 = fresh\<lparr>pid_file := Some (Pid 4242)\<rparr>"

definition garbled :: world where
  "garbled = fresh\<lparr>pid_file := Some Malformed\<rparr>"

definition second_run :: world where
  "second_run = fresh\<lparr>logs := [''daemon_test.log'' \<mapsto> [(900, heartbeat 1)]]\<rparr>"

definition the_daemon :: daemon where
  "the_daemon = SimpleDaemon ''daemon_test.log'' 30"

definition pid_logger :: daemon where
  "pid_logger = SimpleDaemon ''daemon_test.pid'' 30"

definition recorded_huge :: world where
  "recorded_huge = fresh\<lparr>pid_file := Some (Pid 99999999999)\<rparr>"

definition lab_store :: "unit store" where
  "lab_store = \<lparr>table = [(''JK_9149'', ())], shown = []\<rparr>"

definition lab_upload :: "unit upload" where
  "lab_upload = \<lparr>inserted = 0, skipped = 0, errors = [], rows = [(''JK_9149'', ())], texts = []\<rparr>"

definition no_samples :: "unit store" where
  "no_samples = \<lparr>table = [], shown = []\<rparr>"

definition spaced_store :: "unit store" where
  "spaced_store = \<lparr>table = [('' A '', ())], shown = []\<rparr>"

section \<open>Facts about the library calls and the log\<close>

lemma os_kill_cases:
  "pid_t p \<Longrightarrow> os_kill e p s w =
     ((case procs e (length (trace w)) p of Gone \<Rightarrow> Inl ProcessLookupError
        | Alive_Foreign \<Rightarrow> Inl PermissionError | Alive_Own \<Rightarrow> Inr ()),
      w\<lparr>trace := trace w @ [Kill p s]\<rparr>)"
  by (simp add: os_kill_def Let_def split: pstate.splits)

lemma log_pid_file [simp]:
  "log_file d \<noteq> pid_file_name \<Longrightarrow> pid_file (log e d m w) = pid_file w"
  by (simp add: log_def Let_def)

lemma log_of_log_pid:
  "log_file d = pid_file_name \<Longrightarrow>
     log_of (log e d m w) pid_file_name = log_of w pid_file_name @ [(clock e (reads w), m)]"
  by (simp add: log_def log_of_def Let_def)

lemma log_into_pid_file:
  "log_file d = pid_file_name \<Longrightarrow>
     pid_file (log e d m w) = Some (Lines (log_of w pid_file_name @ [(clock e (reads w), m)]))"
  by (simp add: log_def log_of_def Let_def)

lemma log_trace [simp]: "trace (log e d m w) = trace w"
  by (simp add: log_def Let_def)

lemma log_reads [simp]: "reads (log e d m w) = Suc (reads w)"
  by (simp add: log_def Let_def)

lemma log_of_log [simp]:
  "log_of (log e d m w) (log_file d) = log_of w (log_file d) @ [(clock e (reads w), m)]"
  by (simp add: log_def log_of_def Let_def)

lemma logs_log_other [simp]: "p \<noteq> log_file d \<Longrightarrow> logs (log e d m w) p = logs w p"
  by (simp add: log_def Let_def)

lemma log_of_log_other [simp]: "p \<noteq> log_file d \<Longrightarrow> log_of (log e d m w) p = log_of w p"
  by (auto simp: log_def log_of_def Let_def)

lemma log_of_trace [simp]: "log_of (w\<lparr>trace := t\<rparr>) p = log_of w p"
  by (simp add: log_of_def)

lemma log_of_stdout [simp]: "log_of (w\<lparr>stdout := t\<rparr>) p = log_of w p"
  by (simp add: log_of_def)

lemma remove_pid_reads [simp]: "reads (remove_pid w) = reads w"
  by (simp add: remove_pid_def)

lemma log_of_remove_pid:
  "log_of (remove_pid w) p = (if p = pid_file_name then [] else log_of w p)"
  by (simp add: remove_pid_def log_of_def)

lemma log_of_written:
  "log_of (w\<lparr>pid_file := Some (Pid x)\<rparr>) p = (if p = pid_file_name then [] else log_of w p)"
  by (simp add: log_of_def)

lemma show_log_logs [simp]: "logs (show_log e w) = logs w"
proof -
  have "\<And>w. logs (fold (\<lambda>line. print (rstrip line)) ls w) = logs w" for ls
    by (induction ls) (simp_all add: print_def)
  then show ?thesis by (simp add: show_log_def print_def split: option.splits)
qed

lemma status_daemon_logs: "logs (snd (status_daemon e w)) = logs w"
  by (auto simp: status_daemon_def print_def os_kill_def Let_def
      split: option.splits sum.splits pstate.splits prod.splits)

lemma stop_daemon_logs: "logs (snd (stop_daemon e w)) = logs w"
  by (auto simp: stop_daemon_def print_def os_kill_def Let_def slept_def
        stop_outer_handler_def stop_inner_handler_def unlink_if_exists_def
      split: option.splits sum.splits pstate.splits prod.splits)

lemma is_running_logs: "logs (snd (is_running e w)) = logs w"
  by (auto simp: is_running_def os_kill_def Let_def remove_pid_def
      split: option.splits sum.splits pstate.splits prod.splits)

lemma is_running_reads: "reads (snd (is_running e w)) = reads w"
  by (auto simp: is_running_def os_kill_def Let_def remove_pid_def
      split: option.splits sum.splits pstate.splits prod.splits)

text \<open>When \<^verbatim>\<open>is_running\<close> says no, there is no PID file afterwards, and before there was
  none or one that held a pid, so that no log lines were in it.\<close>

lemma is_running_False:
  assumes "fst (is_running e w) = Inr False"
  shows "pid_file (snd (is_running e w)) = None"
    and "log_of w pid_file_name = []"
    and "log_of (snd (is_running e w)) p = log_of w p"
proof -
  have c: "pid_file w = None \<or> (\<exists>p. pid_file w = Some (Pid p))"
  proof (cases "pid_file w")
    case None
    then show ?thesis by simp
  next
    case (Some a)
    then show ?thesis using assms by (cases a) (auto simp: is_running_def)
  qed
  show "pid_file (snd (is_running e w)) = None"
    using assms
    by (auto simp: is_running_def os_kill_def Let_def remove_pid_def
        split: option.splits sum.splits pstate.splits prod.splits if_splits)
  then have n: "log_of (snd (is_running e w)) pid_file_name = []"
    by (simp add: log_of_def)
  show e: "log_of w pid_file_name = []"
    using c by (auto simp: log_of_def)
  show "log_of (snd (is_running e w)) p = log_of w p"
    using n e is_running_logs [of e w] by (simp add: log_of_def)
qed

lemma snd_finished [simp]: "snd (finished r) = snd r"
  by (cases r) (simp add: finished_def split: sum.splits)

lemma fst_finished_Inl: "fst r = Inl x \<Longrightarrow> fst (finished r) = Raised x"
  by (cases r) (simp add: finished_def)

subsection \<open>Telling the lines of the log apart\<close>

lemma not_heartbeat_replicate: "\<not> prefix ''Check #'' (replicate n CHR ''='')"
  by (cases n) simp_all

lemma not_graceful_replicate: "replicate n CHR ''='' \<noteq> ''Daemon stopped gracefully''"
  by (cases n) simp_all

lemma is_heartbeat_heartbeat [simp]: "is_heartbeat (t, heartbeat k)"
  by (simp add: is_heartbeat_def heartbeat_def)

lemma not_graceful_heartbeat [simp]: "heartbeat k \<noteq> ''Daemon stopped gracefully''"
  by (simp add: heartbeat_def)

lemma heartbeats_beats:
  "heartbeats (map (\<lambda>k. (f k, heartbeat (g k))) ks) = map (\<lambda>k. (f k, heartbeat (g k))) ks"
  by (induction ks) (simp_all add: heartbeats_def)

lemma graceful_beats: "graceful_lines (map (\<lambda>k. (f k, heartbeat (g k))) ks) = 0"
  by (induction ks) (simp_all add: graceful_lines_def)

lemma heartbeats_append: "heartbeats (xs @ ys) = heartbeats xs @ heartbeats ys"
  by (simp add: heartbeats_def)

lemma graceful_append: "graceful_lines (xs @ ys) = graceful_lines xs + graceful_lines ys"
  by (simp add: graceful_lines_def)

text \<open>The counter printed in a heartbeat line can be read back, so different counters
  give different lines.\<close>

lemma digit_char:
  assumes "d < 10"
  shows "is_digit (''0123456789'' ! d) \<and> digit_val (''0123456789'' ! d) = d"
proof -
  from assms have "d = 0 \<or> d = 1 \<or> d = 2 \<or> d = 3 \<or> d = 4 \<or> d = 5 \<or> d = 6 \<or> d = 7
      \<or> d = 8 \<or> d = 9"
    by arith
  then show ?thesis
    by (elim disjE) (simp_all add: is_digit_def digit_val_def)
qed

lemma str_nat_digits: "x \<in> set (str_nat n) \<Longrightarrow> is_digit x"
proof (induction n arbitrary: x rule: str_nat.induct)
  case (1 n)
  show ?case
  proof (cases "n < 10")
    case True
    with "1.prems" show ?thesis
      using digit_char [of n] by (simp add: str_nat.simps [of n])
  next
    case False
    with "1.prems" "1.IH" show ?thesis
      using digit_char [of "n mod 10"] by (auto simp: str_nat.simps [of n])
  qed
qed

lemma digits_str_nat: "foldl (\<lambda>a c. 10 * a + digit_val c) 0 (str_nat n) = n"
proof (induction n rule: str_nat.induct)
  case (1 n)
  show ?case
  proof (cases "n < 10")
    case True
    then show ?thesis using digit_char [of n] by (simp add: str_nat.simps [of n])
  next
    case False
    with "1.IH" show ?thesis
      using digit_char [of "n mod 10"] by (simp add: str_nat.simps [of n])
  qed
qed

lemma counter_of_heartbeat [simp]: "counter_of (t, heartbeat k) = k"
proof -
  have "takeWhile is_digit (str_nat k @ '': Daemon is alive and working!'') = str_nat k"
    using str_nat_digits [of _ k] by (simp add: takeWhile_append2 is_digit_def)
  then show ?thesis
    by (simp add: counter_of_def heartbeat_def digits_str_nat)
qed

subsection \<open>Index arithmetic\<close>

lemma upt_0_Suc: "[0..<Suc n] = 0 # map Suc [0..<n]"
  by (simp add: upt_conv_Cons map_Suc_upt del: upt_Suc)

lemma map_shift: "map (\<lambda>k. f (a + k)) [0..<N] = map f [a..<a + N]"
proof -
  have "[a..<a + N] = map (\<lambda>i. i + a) [0..<N]"
    by (simp add: map_add_upt add.commute)
  then show ?thesis by (simp add: o_def add.commute)
qed

lemma sorted_clock: "mono f \<Longrightarrow> sorted (map f [a..<b])" for f :: "nat \<Rightarrow> nat"
proof -
  assume m: "mono f"
  have "sorted_wrt (\<le>) [a..<b]" by simp
  then have "sorted_wrt (\<lambda>x y. f x \<le> f y) [a..<b]"
    by (rule sorted_wrt_mono_rel [rotated]) (use m in \<open>simp add: monoD\<close>)
  then show ?thesis by (simp add: sorted_map)
qed

section \<open>The control commands: stop and status\<close>

lemma stop_daemon_Pid:
  assumes "pid_file w = Some (Pid p)" and "pid_t p"
  shows "fst (stop_daemon e w) = Inr ()
       \<and> pid_file (snd (stop_daemon e w)) = None
       \<and> logs (snd (stop_daemon e w)) = logs w
       \<and> trace (snd (stop_daemon e w)) = trace w @ stop_calls e (length (trace w)) p"
  using assms
  by (simp add: stop_daemon_def os_kill_cases stop_calls_def print_def slept_def
        stop_outer_handler_def stop_inner_handler_def unlink_if_exists_def
      split: pstate.splits)

lemma status_daemon_Pid:
  assumes "pid_file w = Some (Pid p)" and "pid_t p"
  shows "fst (status_daemon e w) = Inr ()"
  using assms by (simp add: status_daemon_def os_kill_cases split: pstate.splits)

lemma commands_Malformed:
  assumes "pid_file w = Some Malformed"
  shows "stop_daemon e w = (Inl (ValueError ''invalid literal for int() with base 10''), w)"
    and "status_daemon e w = (Inl (ValueError ''invalid literal for int() with base 10''), w)"
  using assms by (simp_all add: stop_daemon_def status_daemon_def)

lemma stop_calls_shape:
  "hd (stop_calls e t p) = Kill p 15
   \<and> (Kill p 9 \<in> set (stop_calls e t p)
        \<longleftrightarrow> procs e t p = Alive_Own \<and> procs e (t + 2) p = Alive_Own)
   \<and> (Sleep 2 \<in> set (stop_calls e t p) \<longleftrightarrow> procs e t p = Alive_Own)"
  by (simp add: stop_calls_def)

text \<open>
  Claim C7. When no PID file exists, \<^verbatim>\<open>stop\<close> prints the report
  \<^verbatim>\<open>No daemon running (PID file not found)\<close> and returns; it makes no system call,
  and afterwards there is still no PID file and every log file is as it was. A second
  call does the same again: it returns after printing the same report once more.
\<close>

theorem stop_without_pid_file:
  assumes "pid_file w = None"
  shows "stop_daemon e w = (Inr (), print ''No daemon running (PID file not found)'' w)
       \<and> pid_file (snd (stop_daemon e w)) = None
       \<and> logs (snd (stop_daemon e w)) = logs w
       \<and> trace (snd (stop_daemon e w)) = trace w
       \<and> stop_daemon e (snd (stop_daemon e w)) =
           (Inr (), print ''No daemon running (PID file not found)'' (snd (stop_daemon e w)))"
  using assms by (simp add: stop_daemon_def print_def)

theorem stop_without_pid_file_witness:
  "pid_file fresh = None
   \<and> stop_daemon (env_of nobody steady) fresh =
       (Inr (), fresh\<lparr>stdout := [''No daemon running (PID file not found)'']\<rparr>)
   \<and> stop_daemon (env_of nobody steady) (snd (stop_daemon (env_of nobody steady) fresh)) =
       (Inr (), fresh\<lparr>stdout := [''No daemon running (PID file not found)'',
                                  ''No daemon running (PID file not found)'']\<rparr>)"
  using stop_without_pid_file [of fresh "env_of nobody steady"]
  by (simp add: fresh_def print_def stop_daemon_def)

text \<open>
  Claim C3, as the code has it. Let the PID file hold a number \<open>p\<close>. If \<open>p\<close> is a pid
  (positive and within \<^verbatim>\<open>pid_t\<close>), \<^verbatim>\<open>stop\<close> returns normally with the PID file gone and
  the log files untouched, whatever the process table says at any time. Its system
  calls are those of \<open>stop_calls\<close>: signal 15 to \<open>p\<close> comes first; the sleep of 2 and
  the probe with signal 0 follow exactly when signal 15 was delivered; signal 9 is
  sent exactly when that probe found the process alive, and it is then the last call.
  When signal 15 cannot be delivered \<^verbatim>\<open>stop\<close> goes to its handler at once, with no
  wait and no probe. If \<open>p\<close> does not fit \<^verbatim>\<open>pid_t\<close>, \<^verbatim>\<open>os.kill\<close> raises
  \<^verbatim>\<open>OverflowError\<close>, which \<^verbatim>\<open>stop\<close> does not catch: no call is made and the PID file
  stays.
\<close>

theorem stop_escalation:
  assumes "pid_file w = Some (Pid p)"
  shows "(valid_pid p \<longrightarrow>
           fst (stop_daemon e w) = Inr ()
         \<and> pid_file (snd (stop_daemon e w)) = None
         \<and> logs (snd (stop_daemon e w)) = logs w
         \<and> trace (snd (stop_daemon e w)) = trace w @ stop_calls e (length (trace w)) p
         \<and> hd (stop_calls e (length (trace w)) p) = Kill p 15
         \<and> (Kill p 9 \<in> set (stop_calls e (length (trace w)) p)
              \<longleftrightarrow> procs e (length (trace w)) p = Alive_Own
                  \<and> procs e (length (trace w) + 2) p = Alive_Own)
         \<and> (Sleep 2 \<in> set (stop_calls e (length (trace w)) p)
              \<longleftrightarrow> procs e (length (trace w)) p = Alive_Own)
         \<and> (Kill p 0 \<in> set (stop_calls e (length (trace w)) p)
              \<longleftrightarrow> procs e (length (trace w)) p = Alive_Own))
       \<and> (\<not> pid_t p \<longrightarrow>
           fst (stop_daemon e w) = Inl OverflowError
         \<and> pid_file (snd (stop_daemon e w)) = Some (Pid p)
         \<and> logs (snd (stop_daemon e w)) = logs w
         \<and> trace (snd (stop_daemon e w)) = trace w)"
proof (intro conjI impI)
  assume "\<not> pid_t p"
  then have "stop_daemon e w =
      (Inl OverflowError, print (''Stopping daemon with PID '' @ str_int p @ ''...'') w)"
    using assms by (simp add: stop_daemon_def os_kill_def stop_outer_handler_def)
  then show "fst (stop_daemon e w) = Inl OverflowError"
    and "pid_file (snd (stop_daemon e w)) = Some (Pid p)"
    and "logs (snd (stop_daemon e w)) = logs w"
    and "trace (snd (stop_daemon e w)) = trace w"
    using assms by (simp_all add: print_def)
next
  assume v: "valid_pid p"
  then have "pid_t p" by (simp add: valid_pid_def)
  from stop_daemon_Pid [OF assms this, of e]
  show "fst (stop_daemon e w) = Inr ()"
    and "pid_file (snd (stop_daemon e w)) = None"
    and "logs (snd (stop_daemon e w)) = logs w"
    and "trace (snd (stop_daemon e w)) = trace w @ stop_calls e (length (trace w)) p"
    by simp_all
  show "hd (stop_calls e (length (trace w)) p) = Kill p 15"
    and "Kill p 9 \<in> set (stop_calls e (length (trace w)) p)
          \<longleftrightarrow> procs e (length (trace w)) p = Alive_Own
              \<and> procs e (length (trace w) + 2) p = Alive_Own"
    and "Sleep 2 \<in> set (stop_calls e (length (trace w)) p)
          \<longleftrightarrow> procs e (length (trace w)) p = Alive_Own"
    and "Kill p 0 \<in> set (stop_calls e (length (trace w)) p)
          \<longleftrightarrow> procs e (length (trace w)) p = Alive_Own"
    by (simp_all add: stop_calls_def)
qed

theorem stop_escalation_witness:
  "pid_file recorded_4242 = Some (Pid 4242) \<and> valid_pid 4242
   \<and> fst (stop_daemon (env_of own_4242 steady) recorded_4242) = Inr ()
   \<and> pid_file (snd (stop_daemon (env_of own_4242 steady) recorded_4242)) = None
   \<and> trace (snd (stop_daemon (env_of own_4242 steady) recorded_4242)) =
       [Kill 4242 15, Sleep 2, Kill 4242 0, Kill 4242 9]
   \<and> trace (snd (stop_daemon (env_of foreign_4242 steady) recorded_4242)) = [Kill 4242 15]
   \<and> pid_file (snd (stop_daemon (env_of foreign_4242 steady) recorded_4242)) = None
   \<and> pid_file recorded_huge = Some (Pid 99999999999) \<and> \<not> pid_t 99999999999
   \<and> fst (stop_daemon (env_of own_4242 steady) recorded_huge) = Inl OverflowError
   \<and> pid_file (snd (stop_daemon (env_of own_4242 steady) recorded_huge))
       = Some (Pid 99999999999)"
  using stop_escalation [of recorded_4242 4242 "env_of own_4242 steady"]
    stop_escalation [of recorded_4242 4242 "env_of foreign_4242 steady"]
    stop_escalation [of recorded_huge 99999999999 "env_of own_4242 steady"]
  by (simp add: recorded_4242_def recorded_huge_def fresh_def valid_pid_def pid_t_def
      stop_calls_def env_of_def own_4242_def foreign_4242_def)

text \<open>
  Claim C3 as stated fails on a stale record. The PID file names process 4242, which
  is gone: signal 15 cannot be delivered, and \<^verbatim>\<open>stop\<close> removes the PID file without
  the wait of 2 and without the probe; signal 15 is its only call.
\<close>

theorem stop_stale_no_wait:
  "pid_file recorded_4242 = Some (Pid 4242)
   \<and> procs (env_of nobody steady) 0 4242 = Gone
   \<and> fst (stop_daemon (env_of nobody steady) recorded_4242) = Inr ()
   \<and> trace (snd (stop_daemon (env_of nobody steady) recorded_4242)) = [Kill 4242 15]
   \<and> pid_file (snd (stop_daemon (env_of nobody steady) recorded_4242)) = None"
proof -
  have p: "pid_file recorded_4242 = Some (Pid 4242)" "trace recorded_4242 = []"
    by (simp_all add: recorded_4242_def fresh_def)
  have "pid_t 4242" by (simp add: pid_t_def)
  from stop_daemon_Pid [OF p(1) this, of "env_of nobody steady"] p
  show ?thesis by (simp add: stop_calls_def env_of_def nobody_def)
qed

text \<open>
  Claim C4. When the PID file holds a pid whose process does not exist, \<^verbatim>\<open>status\<close>
  prints \<^verbatim>\<open>Daemon is NOT running (stale PID p)\<close>, removes the PID file and returns, and
  the log files are untouched. A second \<^verbatim>\<open>status\<close> finds no PID file, prints
  \<^verbatim>\<open>Daemon is NOT running (no PID file)\<close> and returns. Both reports say that the daemon
  is not running.
\<close>

theorem status_stale:
  assumes "pid_file w = Some (Pid p)" and "valid_pid p"
    and "procs e (length (trace w)) p = Gone"
  shows "fst (status_daemon e w) = Inr ()
       \<and> pid_file (snd (status_daemon e w)) = None
       \<and> logs (snd (status_daemon e w)) = logs w
       \<and> stdout (snd (status_daemon e w)) =
            stdout w @ [''Daemon is NOT running (stale PID '' @ str_int p @ '')'']
       \<and> reports_not_running (''Daemon is NOT running (stale PID '' @ str_int p @ '')'')
       \<and> status_daemon e (snd (status_daemon e w)) =
            (Inr (), print ''Daemon is NOT running (no PID file)'' (snd (status_daemon e w)))
       \<and> reports_not_running ''Daemon is NOT running (no PID file)''"
  using assms
  by (simp add: status_daemon_def os_kill_cases valid_pid_def print_def reports_not_running_def)

theorem status_stale_witness:
  "pid_file recorded_4242 = Some (Pid 4242) \<and> valid_pid 4242
   \<and> procs (env_of nobody steady) (length (trace recorded_4242)) 4242 = Gone
   \<and> fst (status_daemon (env_of nobody steady) recorded_4242) = Inr ()
   \<and> pid_file (snd (status_daemon (env_of nobody steady) recorded_4242)) = None
   \<and> stdout (snd (status_daemon (env_of nobody steady) recorded_4242)) =
       [''Daemon is NOT running (stale PID '' @ str_int 4242 @ '')'']"
  using status_stale [of recorded_4242 4242 "env_of nobody steady"]
  by (simp add: recorded_4242_def fresh_def valid_pid_def pid_t_def env_of_def nobody_def)

text \<open>
  Claim C5, as the code has it. \<^verbatim>\<open>stop\<close> and \<^verbatim>\<open>status\<close> return normally whenever the
  PID file is missing or holds a pid: every \<^verbatim>\<open>OSError\<close> that \<^verbatim>\<open>os.kill\<close> raises is
  caught. A PID file whose content is not an integer is read before the \<^verbatim>\<open>try\<close>:
  \<^verbatim>\<open>int\<close> raises \<^verbatim>\<open>ValueError\<close>, which leaves both commands with nothing printed and
  nothing changed.
\<close>

theorem control_commands_catch:
  "(pid_file w = None \<or> (\<exists>p. pid_file w = Some (Pid p) \<and> valid_pid p)
      \<longrightarrow> fst (stop_daemon e w) = Inr () \<and> fst (status_daemon e w) = Inr ())
   \<and> (pid_file w = Some Malformed
      \<longrightarrow> stop_daemon e w = (Inl (ValueError ''invalid literal for int() with base 10''), w)
        \<and> status_daemon e w = (Inl (ValueError ''invalid literal for int() with base 10''), w))"
proof (cases "pid_file w")
  case None
  then show ?thesis by (simp add: stop_daemon_def status_daemon_def)
next
  case (Some c)
  show ?thesis
  proof (cases c)
    case (Pid p)
    with Some show ?thesis
      using stop_daemon_Pid [of w p e] status_daemon_Pid [of w p e]
      by (simp add: valid_pid_def)
  next
    case Malformed
    with Some show ?thesis using commands_Malformed [of w e] by simp
  next
    case (Lines es)
    with Some show ?thesis by simp
  qed
qed

theorem control_commands_catch_witness:
  "pid_file recorded_4242 = Some (Pid 4242) \<and> valid_pid 4242
   \<and> fst (stop_daemon (env_of foreign_4242 steady) recorded_4242) = Inr ()
   \<and> fst (status_daemon (env_of foreign_4242 steady) recorded_4242) = Inr ()
   \<and> pid_file fresh = None
   \<and> fst (stop_daemon (env_of nobody steady) fresh) = Inr ()
   \<and> fst (status_daemon (env_of nobody steady) fresh) = Inr ()
   \<and> pid_file garbled = Some Malformed
   \<and> status_daemon (env_of nobody steady) garbled =
       (Inl (ValueError ''invalid literal for int() with base 10''), garbled)
   \<and> stop_daemon (env_of nobody steady) garbled =
       (Inl (ValueError ''invalid literal for int() with base 10''), garbled)"
  using control_commands_catch [of recorded_4242 "env_of foreign_4242 steady"]
    control_commands_catch [of fresh "env_of nobody steady"]
    control_commands_catch [of garbled "env_of nobody steady"]
  by (simp add: recorded_4242_def garbled_def fresh_def valid_pid_def pid_t_def)

text \<open>
  Claim C5 as stated fails on a PID file that does not hold an integer: the
  \<^verbatim>\<open>ValueError\<close> leaves \<^verbatim>\<open>stop\<close> and \<^verbatim>\<open>status\<close> uncaught, and the interpreter exits with
  status 1.
\<close>

theorem malformed_pid_file_raises:
  "fst (main (env_of nobody steady) Stop ''daemon_test.log'' 30 [] garbled)
     = Raised (ValueError ''invalid literal for int() with base 10'')
   \<and> fst (main (env_of nobody steady) Status ''daemon_test.log'' 30 [] garbled)
     = Raised (ValueError ''invalid literal for int() with base 10'')
   \<and> exit_status (fst (main (env_of nobody steady) Stop ''daemon_test.log'' 30 [] garbled))
     = Some 1"
proof -
  have "pid_file garbled = Some Malformed" by (simp add: garbled_def)
  from commands_Malformed [OF this, of "env_of nobody steady"]
  show ?thesis by (simp add: main_def finished_def)
qed

section \<open>The daemon\<close>

subsection \<open>The heartbeat loop\<close>

text \<open>
  After \<open>n\<close> sleeps that ended normally the loop is where it would be had it started
  with the counter at \<open>c + n\<close>; it has read the clock \<open>n\<close> times and appended the
  heartbeat lines \<open>c + 1\<close> to \<open>c + n\<close>, and the PID file is as it was unless it is the
  log.
\<close>

lemma loop_wakes:
  assumes "0 \<le> check_interval d"
  shows "\<exists>w'. loop e d c (replicate n Wake @ evs) w = loop e d (c + n) evs w'
       \<and> (log_file d \<noteq> pid_file_name \<longrightarrow> pid_file w' = pid_file w)
       \<and> reads w' = reads w + n
       \<and> log_of w' (log_file d) = log_of w (log_file d)
            @ map (\<lambda>k. (clock e (reads w + k), heartbeat (c + Suc k))) [0..<n]"
proof (induction n arbitrary: c w)
  case 0
  show ?case by (rule exI [of _ w]) simp
next
  case (Suc n)
  let ?w1 = "slept (check_interval d) (log e d (heartbeat (c + 1)) w)"
  from Suc.IH [of "c + 1" ?w1] obtain w' where
    w': "loop e d (c + 1) (replicate n Wake @ evs) ?w1 = loop e d (c + 1 + n) evs w'"
      "log_file d \<noteq> pid_file_name \<longrightarrow> pid_file w' = pid_file ?w1" "reads w' = reads ?w1 + n"
      "log_of w' (log_file d) = log_of ?w1 (log_file d)
         @ map (\<lambda>k. (clock e (reads ?w1 + k), heartbeat (c + 1 + Suc k))) [0..<n]"
    by blast
  have step: "loop e d c (replicate (Suc n) Wake @ evs) w
      = loop e d (c + 1) (replicate n Wake @ evs) ?w1"
    using assms by (simp add: time_sleep_def Let_def)
  have sl: "log_file d \<noteq> pid_file_name \<longrightarrow> pid_file ?w1 = pid_file w"
    "reads ?w1 = Suc (reads w)"
    "log_of ?w1 (log_file d) = log_of w (log_file d) @ [(clock e (reads w), heartbeat (c + 1))]"
    by (simp_all add: slept_def)
  show ?case
    apply (rule exI [of _ w'])
    using w' step sl
    by (simp add: upt_0_Suc o_def del: upt_Suc replicate_Suc)
qed

text \<open>The loop on a longer list of events goes on from where the shorter list left
  it, unless it had ended there.\<close>

lemma loop_append:
  "loop e d c (evs @ later) w =
     (case loop e d c evs w of
        (None, w') \<Rightarrow> loop e d (c + length evs) later w'
      | (Some i, w') \<Rightarrow> (Some i, w'))"
proof (induction evs arbitrary: c w)
  case Nil
  show ?case by simp
next
  case (Cons ev evs)
  show ?case
    by (cases "time_sleep (check_interval d) ev (log e d (heartbeat (c + 1)) w)")
       (simp_all add: Let_def Cons.IH split: prod.splits option.splits)
qed

text \<open>The seven lines that \<^verbatim>\<open>run\<close> writes before the loop: none is a heartbeat line, none
  says that the daemon stopped. \<^verbatim>\<open>write_pid\<close> opens the PID file for writing, which
  empties it.\<close>

lemma startup_facts:
  "\<exists>ss. log_of (startup e d (write_pid e d w)) (log_file d)
        = (if log_file d = pid_file_name then [] else log_of w (log_file d)) @ ss
      \<and> length ss = 7 \<and> heartbeats ss = [] \<and> graceful_lines ss = 0
      \<and> reads (startup e d (write_pid e d w)) = reads w + 7
      \<and> (log_file d \<noteq> pid_file_name \<longrightarrow>
           pid_file (startup e d (write_pid e d w)) = Some (Pid (getpid e)))"
  by (simp add: startup_def write_pid_def log_of_written heartbeats_def graceful_lines_def
      is_heartbeat_def not_heartbeat_replicate not_graceful_replicate)

lemma started_loop:
  assumes "fst (is_running e w) = Inr False" and "0 \<le> check_interval d"
  shows "\<exists>w1 w3 ss. is_running e w = (Inr False, w1)
       \<and> loop e d 0 (replicate n Wake @ evs) (startup e d (write_pid e d w1)) = loop e d n evs w3
       \<and> (log_file d \<noteq> pid_file_name \<longrightarrow> pid_file w3 = Some (Pid (getpid e)))
       \<and> reads w3 = reads w + 7 + n
       \<and> log_of w3 (log_file d) = log_of w (log_file d) @ ss
            @ map (\<lambda>k. (clock e (reads w + 7 + k), heartbeat (Suc k))) [0..<n]
       \<and> length ss = 7 \<and> heartbeats ss = [] \<and> graceful_lines ss = 0"
proof -
  obtain w1 where ir: "is_running e w = (Inr False, w1)"
    using assms(1) by (cases "is_running e w") simp
  have l1: "log_of w1 (log_file d) = log_of w (log_file d)"
    using is_running_False(3) [OF assms(1), of "log_file d"] ir by simp
  have l0: "log_file d = pid_file_name \<longrightarrow> log_of w (log_file d) = []"
    using is_running_False(2) [OF assms(1)] by simp
  have r1: "reads w1 = reads w" using is_running_reads [of e w] ir by simp
  let ?w2 = "startup e d (write_pid e d w1)"
  obtain ss where ss: "log_of ?w2 (log_file d)
        = (if log_file d = pid_file_name then [] else log_of w1 (log_file d)) @ ss"
      "length ss = 7" "heartbeats ss = []" "graceful_lines ss = 0" "reads ?w2 = reads w1 + 7"
      "log_file d \<noteq> pid_file_name \<longrightarrow> pid_file ?w2 = Some (Pid (getpid e))"
    using startup_facts [of e d w1] by blast
  have l2: "log_of ?w2 (log_file d) = log_of w (log_file d) @ ss"
    using ss(1) l1 l0 by simp
  obtain w3 where w3:
      "loop e d 0 (replicate n Wake @ evs) ?w2 = loop e d (0 + n) evs w3"
      "log_file d \<noteq> pid_file_name \<longrightarrow> pid_file w3 = pid_file ?w2" "reads w3 = reads ?w2 + n"
      "log_of w3 (log_file d) = log_of ?w2 (log_file d)
         @ map (\<lambda>k. (clock e (reads ?w2 + k), heartbeat (0 + Suc k))) [0..<n]"
    using loop_wakes [OF assms(2), of e 0 n evs ?w2] by blast
  show ?thesis
    apply (rule exI [of _ w1], rule exI [of _ w3], rule exI [of _ ss])
    using ir w3 ss(2-6) l2 r1 by simp
qed

text \<open>Signal 15 in the loop: the process ends where it is.\<close>

lemma run_sigterm:
  assumes "fst (is_running e w) = Inr False" and "0 \<le> check_interval d"
    and "log_file d \<noteq> pid_file_name"
  shows "\<exists>app. fst (run e d (replicate n Wake @ SigTerm # rest) w) = Killed 15
       \<and> pid_file (snd (run e d (replicate n Wake @ SigTerm # rest) w)) = Some (Pid (getpid e))
       \<and> log_of (snd (run e d (replicate n Wake @ SigTerm # rest) w)) (log_file d)
           = log_of w (log_file d) @ app
       \<and> graceful_lines app = 0"
proof -
  from started_loop [OF assms(1,2), of n "SigTerm # rest"] assms(3) obtain w1 w3 ss where f:
    "is_running e w = (Inr False, w1)"
    "loop e d 0 (replicate n Wake @ SigTerm # rest) (startup e d (write_pid e d w1))
       = loop e d n (SigTerm # rest) w3"
    "pid_file w3 = Some (Pid (getpid e))"
    "log_of w3 (log_file d) = log_of w (log_file d) @ ss
            @ map (\<lambda>k. (clock e (reads w + 7 + k), heartbeat (Suc k))) [0..<n]"
    "graceful_lines ss = 0"
    by blast
  let ?w4 = "log e d (heartbeat (n + 1)) w3"
  have r: "run e d (replicate n Wake @ SigTerm # rest) w = (Killed 15, ?w4)"
    using f(1,2) assms(2) by (simp add: run_def time_sleep_def Let_def)
  let ?app = "ss @ map (\<lambda>k. (clock e (reads w + 7 + k), heartbeat (Suc k))) [0..<n]
                @ [(clock e (reads w3), heartbeat (n + 1))]"
  have g: "graceful_lines ?app = 0"
    using f(5) graceful_beats [of "\<lambda>k. clock e (reads w + 7 + k)" Suc "[0..<n]"]
    by (simp add: graceful_append) (simp add: graceful_lines_def)
  show ?thesis
    apply (rule exI [of _ ?app])
    using r f(3,4) g assms(3) by simp
qed

text \<open>The interrupt in the loop, after \<open>n\<close> sleeps: the three lines that follow the
  start-up lines and the first \<open>n\<close> heartbeat lines, with the PID file unlinked before
  the last of them is written.\<close>

lemma run_sigint:
  assumes "fst (is_running e w) = Inr False" and "0 \<le> check_interval d"
  shows "\<exists>w3 ss. run e d (replicate n Wake @ SigInt # rest) w =
           (Returned,
            log e d ''Daemon stopped gracefully''
              (remove_pid
                (log e d (newline # ''Received interrupt signal, shutting down...'')
                  (log e d (heartbeat (n + 1)) w3))))
       \<and> reads w3 = reads w + 7 + n
       \<and> log_of w3 (log_file d) = log_of w (log_file d) @ ss
            @ map (\<lambda>k. (clock e (reads w + 7 + k), heartbeat (Suc k))) [0..<n]
       \<and> length ss = 7 \<and> graceful_lines ss = 0"
proof -
  from started_loop [OF assms, of n "SigInt # rest"] obtain w1 w3 ss where f:
    "is_running e w = (Inr False, w1)"
    "loop e d 0 (replicate n Wake @ SigInt # rest) (startup e d (write_pid e d w1))
       = loop e d n (SigInt # rest) w3"
    "reads w3 = reads w + 7 + n"
    "log_of w3 (log_file d) = log_of w (log_file d) @ ss
            @ map (\<lambda>k. (clock e (reads w + 7 + k), heartbeat (Suc k))) [0..<n]"
    "length ss = 7" "graceful_lines ss = 0"
    by blast
  have "run e d (replicate n Wake @ SigInt # rest) w =
           (Returned,
            log e d ''Daemon stopped gracefully''
              (remove_pid
                (log e d (newline # ''Received interrupt signal, shutting down...'')
                  (log e d (heartbeat (n + 1)) w3))))"
    using f(1,2) assms(2) by (simp add: run_def time_sleep_def Let_def)
  with f(3-6) show ?thesis by blast
qed

text \<open>\<open>N\<close> iterations: the daemon is still running and has appended, after the seven
  start-up lines, the heartbeat lines 1 to \<open>N\<close> with the clock readings 7 to \<open>N + 6\<close> of
  this run.\<close>

lemma run_wakes:
  assumes "fst (is_running e w) = Inr False" and "0 \<le> check_interval d"
  shows "\<exists>app. fst (run e d (replicate N Wake) w) = Running
       \<and> log_of (snd (run e d (replicate N Wake) w)) (log_file d) = log_of w (log_file d) @ app
       \<and> length app = 7 + N
       \<and> heartbeats app = map (\<lambda>k. (clock e (reads w + 7 + k), heartbeat (Suc k))) [0..<N]"
proof -
  from started_loop [OF assms, of N "[]"] obtain w1 w3 ss where f:
    "is_running e w = (Inr False, w1)"
    "loop e d 0 (replicate N Wake @ []) (startup e d (write_pid e d w1)) = loop e d N [] w3"
    "log_of w3 (log_file d) = log_of w (log_file d) @ ss
            @ map (\<lambda>k. (clock e (reads w + 7 + k), heartbeat (Suc k))) [0..<N]"
    "length ss = 7" "heartbeats ss = []"
    by blast
  have r: "run e d (replicate N Wake) w = (Running, w3)"
    using f(1,2) by (simp add: run_def)
  let ?bs = "map (\<lambda>k. (clock e (reads w + 7 + k), heartbeat (Suc k))) [0..<N]"
  have hb: "heartbeats (ss @ ?bs) = ?bs"
    using f(5) heartbeats_beats [of "\<lambda>k. clock e (reads w + 7 + k)" Suc "[0..<N]"]
    by (simp add: heartbeats_append)
  show ?thesis
    apply (rule exI [of _ "ss @ ?bs"])
    using r f(3,4) hb by simp
qed

lemma is_running_fresh: "is_running e fresh = (Inr False, fresh)"
  by (simp add: is_running_def fresh_def)

lemma is_running_second_run: "is_running e second_run = (Inr False, second_run)"
  by (simp add: is_running_def second_run_def fresh_def)

lemma the_daemon_simps [simp]:
  "log_file the_daemon = ''daemon_test.log''" "check_interval the_daemon = 30"
  by (simp_all add: the_daemon_def SimpleDaemon_def)

lemma log_is_not_pid [simp]:
  "''daemon_test.log'' \<noteq> pid_file_name" "pid_file_name \<noteq> ''daemon_test.log''"
  by (simp_all add: pid_file_name_def)

lemma pid_logger_simps [simp]:
  "log_file pid_logger = pid_file_name" "check_interval pid_logger = 30"
  by (simp_all add: pid_logger_def SimpleDaemon_def pid_file_name_def)

lemma log_of_fresh [simp]: "log_of fresh p = []"
  by (simp add: fresh_def log_of_def)

subsection \<open>What stays of a log\<close>

lemma kept_refl: "file_exists w p \<Longrightarrow> kept (log_of w p) p w"
  by (simp add: kept_def)

lemma kept_log: "p \<noteq> pid_file_name \<Longrightarrow> kept es p w \<Longrightarrow> kept es p (log e d m w)"
  by (cases "p = log_file d")
     (auto simp: kept_def file_exists_def log_of_def log_def Let_def split: option.splits)

lemma kept_slept [simp]: "kept es p (slept n w) = kept es p w"
  by (simp add: kept_def file_exists_def log_of_def slept_def)

lemma kept_print [simp]: "kept es p (print m w) = kept es p w"
  by (simp add: kept_def file_exists_def log_of_def print_def)

lemma kept_remove_pid [simp]:
  "p \<noteq> pid_file_name \<Longrightarrow> kept es p (remove_pid w) = kept es p w"
  by (simp add: kept_def file_exists_def log_of_def remove_pid_def)

lemma kept_logs:
  "p \<noteq> pid_file_name \<Longrightarrow> logs w' = logs w \<Longrightarrow> kept es p w' = kept es p w"
  by (simp add: kept_def file_exists_def log_of_def)

lemma kept_startup:
  assumes "p \<noteq> pid_file_name" and "kept es p w"
  shows "kept es p (startup e d (write_pid e d w))"
proof -
  have "kept es p (w\<lparr>pid_file := Some (Pid (getpid e))\<rparr>)"
    using assms by (simp add: kept_def file_exists_def log_of_def)
  then show ?thesis
    unfolding startup_def write_pid_def by (intro kept_log assms(1))
qed

lemma kept_loop:
  assumes "p \<noteq> pid_file_name"
  shows "kept es p w \<Longrightarrow> kept es p (snd (loop e d c evs w))"
proof (induction evs arbitrary: c w)
  case Nil
  then show ?case by simp
next
  case (Cons ev evs)
  have k1: "kept es p (log e d (heartbeat (c + 1)) w)"
    using assms Cons.prems by (rule kept_log)
  show ?case
  proof (cases "time_sleep (check_interval d) ev (log e d (heartbeat (c + 1)) w)")
    case (Inl i)
    then show ?thesis using k1 by (simp add: Let_def)
  next
    case (Inr w2)
    then have "w2 = slept (check_interval d) (log e d (heartbeat (c + 1)) w)"
      by (auto simp: time_sleep_def split: if_splits event.splits)
    then have "kept es p w2" using k1 by simp
    then show ?thesis using Inr Cons.IH [of w2 "c + 1"] by (simp add: Let_def)
  qed
qed

text \<open>What \<^verbatim>\<open>run\<close> does once the loop has ended keeps the log as well.\<close>

lemma kept_after_loop:
  assumes "p \<noteq> pid_file_name" and "kept es p w2"
  shows "kept es p (snd (case (i, w2) of
             (None, w2) \<Rightarrow> (Running, w2)
           | (Some (Sig n), w2) \<Rightarrow> (Killed n, w2)
           | (Some (Exc x), w2) \<Rightarrow>
               if x = KeyboardInterrupt then
                 (Returned,
                  log e d ''Daemon stopped gracefully''
                   (remove_pid
                     (log e d (newline # ''Received interrupt signal, shutting down...'') w2)))
               else if is_Exception x then
                 (Raised x, remove_pid (log e d (''ERROR: '' @ str_exn x) w2))
               else (Raised x, w2)))"
  using assms by (auto simp: kept_log split: option.splits interruption.splits)

lemma kept_run:
  assumes "p \<noteq> pid_file_name" and "kept es p w"
  shows "kept es p (snd (run e d evs w))"
proof -
  obtain r w1 where ir: "is_running e w = (r, w1)" by (cases "is_running e w")
  have k1: "kept es p w1"
    using assms is_running_logs [of e w] ir kept_logs [of p w1 w es] by simp
  let ?w2 = "startup e d (write_pid e d w1)"
  obtain i w3 where lp: "loop e d 0 evs ?w2 = (i, w3)" by (cases "loop e d 0 evs ?w2")
  have "kept es p ?w2" using assms(1) k1 by (rule kept_startup)
  from kept_loop [OF assms(1) this, of e d 0 evs] have k3: "kept es p w3"
    using lp by simp
  show ?thesis
  proof (cases r)
    case (Inl x)
    then show ?thesis using ir k1 by (simp add: run_def)
  next
    case (Inr b)
    show ?thesis
    proof (cases b)
      case True
      then show ?thesis using Inr ir k1 by (simp add: run_def)
    next
      case False
      then show ?thesis
        using Inr ir lp kept_after_loop [OF assms(1) k3, where i = i and e = e and d = d] by (simp add: run_def)
    qed
  qed
qed

text \<open>A run that is observed longer keeps what the shorter observation saw.\<close>

lemma kept_run_longer:
  assumes "p \<noteq> pid_file_name" and "file_exists (snd (run e d evs w)) p"
  shows "kept (log_of (snd (run e d evs w)) p) p (snd (run e d (evs @ later) w))"
proof -
  obtain r w1 where ir: "is_running e w = (r, w1)" by (cases "is_running e w")
  let ?w2 = "startup e d (write_pid e d w1)"
  obtain i w3 where lp: "loop e d 0 evs ?w2 = (i, w3)" by (cases "loop e d 0 evs ?w2")
  have same: "run e d (evs @ later) w = run e d evs w" if "r \<noteq> Inr False \<or> i \<noteq> None"
  proof (cases "r = Inr False")
    case True
    with that obtain j where "i = Some j" by auto
    then show ?thesis using True ir lp by (simp add: run_def loop_append)
  next
    case False
    then show ?thesis using ir
      by (cases r) (auto simp: run_def split: bool.splits)
  qed
  show ?thesis
  proof (cases "r \<noteq> Inr False \<or> i \<noteq> None")
    case True
    then show ?thesis using same assms(2) by (simp add: kept_refl)
  next
    case False
    then have r: "r = Inr False" and i: "i = None" by simp_all
    have s: "snd (run e d evs w) = w3" using r i ir lp by (simp add: run_def)
    obtain j w4 where l2: "loop e d (0 + length evs) later w3 = (j, w4)"
      by (cases "loop e d (0 + length evs) later w3")
    have k3: "kept (log_of w3 p) p w3" using assms(2) s by (simp add: kept_refl)
    from kept_loop [OF assms(1) this, of e d "0 + length evs" later]
    have k4: "kept (log_of w3 p) p w4" using l2 by simp
    show ?thesis
      using r i ir lp l2 s kept_after_loop [OF assms(1) k4, where i = j and e = e and d = d]
      by (simp add: run_def loop_append)
  qed
qed

subsection \<open>Interrupts and signals in the loop\<close>

text \<open>
  Claim C1, as the code has it. Take a daemon that \<^verbatim>\<open>start\<close> did not refuse, with a check
  interval that is not negative. When the user's interrupt (\<^verbatim>\<open>KeyboardInterrupt\<close>)
  reaches the loop in its sleep, after any number \<open>n\<close> of completed sleeps and whatever
  would have followed, \<^verbatim>\<open>run\<close> returns, so that the process exits with status 0; the PID
  file is gone; and the lines appended to the log since the start hold exactly one line
  \<^verbatim>\<open>Daemon stopped gracefully\<close>, which is the last one. Only when the log path is the
  PID file itself is there a PID file afterwards: the unlinked file comes back with
  that last line as its whole content.
\<close>

theorem interrupt_shutdown:
  assumes "fst (is_running e w) = Inr False" and "0 \<le> check_interval d"
  shows "\<exists>app. fst (run e d (replicate n Wake @ SigInt # rest) w) = Returned
       \<and> exit_status (fst (run e d (replicate n Wake @ SigInt # rest) w)) = Some 0
       \<and> pid_file (snd (run e d (replicate n Wake @ SigInt # rest) w))
           = (if log_file d = pid_file_name then Some (Lines [last app]) else None)
       \<and> log_of (snd (run e d (replicate n Wake @ SigInt # rest) w)) (log_file d)
           = log_of w (log_file d) @ app
       \<and> graceful_lines app = 1
       \<and> snd (last app) = ''Daemon stopped gracefully''"
proof -
  from run_sigint [OF assms, of n rest] obtain w3 ss where f:
    "run e d (replicate n Wake @ SigInt # rest) w =
       (Returned,
        log e d ''Daemon stopped gracefully''
          (remove_pid
            (log e d (newline # ''Received interrupt signal, shutting down...'')
              (log e d (heartbeat (n + 1)) w3))))"
    "log_of w3 (log_file d) = log_of w (log_file d) @ ss
            @ map (\<lambda>k. (clock e (reads w + 7 + k), heartbeat (Suc k))) [0..<n]"
    "graceful_lines ss = 0"
    by blast
  let ?w4 = "log e d (heartbeat (n + 1)) w3"
  let ?w5 = "log e d ''Daemon stopped gracefully''
               (remove_pid (log e d (newline # ''Received interrupt signal, shutting down...'') ?w4))"
  let ?last = "(clock e (Suc (Suc (reads w3))), ''Daemon stopped gracefully'')"
  show ?thesis
  proof (cases "log_file d = pid_file_name")
    case False
    let ?app = "ss @ map (\<lambda>k. (clock e (reads w + 7 + k), heartbeat (Suc k))) [0..<n]
       @ [(clock e (reads w3), heartbeat (n + 1)),
          (clock e (Suc (reads w3)), newline # ''Received interrupt signal, shutting down...''),
          ?last]"
    have lg: "log_of ?w5 (log_file d) = log_of w (log_file d) @ ?app"
      using f(2) False by (simp add: log_of_remove_pid)
    have pf: "pid_file ?w5 = None" using False by (simp add: remove_pid_def)
    have g: "graceful_lines ?app = 1"
      using f(3) graceful_beats [of "\<lambda>k. clock e (reads w + 7 + k)" Suc "[0..<n]"]
      by (simp add: graceful_append) (simp add: graceful_lines_def newline_def)
    show ?thesis
      apply (rule exI [of _ ?app])
      using f(1) lg pf g False by simp
  next
    case True
    have l0: "log_of w (log_file d) = []"
      using is_running_False(2) [OF assms(1)] True by simp
    have lg: "log_of ?w5 (log_file d) = [?last]"
      using True by (simp add: log_of_log_pid log_of_remove_pid)
    have pf: "pid_file ?w5 = Some (Lines [?last])"
      using True by (simp add: log_into_pid_file log_of_remove_pid)
    show ?thesis
      apply (rule exI [of _ "[?last]"])
      using f(1) lg pf l0 True by (simp add: graceful_lines_def)
  qed
qed

theorem interrupt_shutdown_witness:
  "fst (is_running (env_of nobody steady) fresh) = Inr False
   \<and> 0 \<le> check_interval the_daemon
   \<and> fst (run (env_of nobody steady) the_daemon [Wake, SigInt] fresh) = Returned
   \<and> exit_status (fst (run (env_of nobody steady) the_daemon [Wake, SigInt] fresh)) = Some 0
   \<and> pid_file (snd (run (env_of nobody steady) the_daemon [Wake, SigInt] fresh)) = None
   \<and> graceful_lines
        (log_of (snd (run (env_of nobody steady) the_daemon [Wake, SigInt] fresh)) ''daemon_test.log'')
      = 1"
  using interrupt_shutdown [of "env_of nobody steady" fresh the_daemon "Suc 0" "[]"]
  by (auto simp: is_running_fresh)

text \<open>
  Claim C1 as stated fails for the signal that \<^verbatim>\<open>stop\<close> sends. Signal 15 in the second
  sleep of a fresh daemon with pid 5151 ends the process: no line
  \<^verbatim>\<open>Daemon stopped gracefully\<close> is written, the PID file still names 5151, and the
  shell sees status 143.
\<close>

theorem sigterm_not_graceful:
  "fst (run (env_of nobody steady) the_daemon [Wake, SigTerm] fresh) = Killed 15
   \<and> exit_status (fst (run (env_of nobody steady) the_daemon [Wake, SigTerm] fresh)) = Some 143
   \<and> pid_file (snd (run (env_of nobody steady) the_daemon [Wake, SigTerm] fresh)) = Some (Pid 5151)
   \<and> graceful_lines
        (log_of (snd (run (env_of nobody steady) the_daemon [Wake, SigTerm] fresh)) ''daemon_test.log'')
      = 0"
  using run_sigterm [of "env_of nobody steady" fresh the_daemon "Suc 0" "[]"]
  by (auto simp: is_running_fresh env_of_def)

subsection \<open>Heartbeat lines\<close>

text \<open>
  Claim C6, as the code has it. Take a daemon that \<^verbatim>\<open>start\<close> did not refuse, with a check
  interval that is not negative. After \<open>N\<close> iterations of the loop the daemon is still
  running, and the lines it has appended to its log file since the start hold exactly
  \<open>N\<close> heartbeat lines. Their counters are \<open>1, \<dots>, N\<close> in this order, and the lines are
  \<^verbatim>\<open>Check #k: Daemon is alive and working!\<close> for these \<open>k\<close>. Their time stamps are the
  clock readings number \<open>7\<close> to \<open>N + 6\<close> of this run, in this order; they do not
  decrease when the clock does not step back. If the log held no heartbeat line before
  the start, these are all the heartbeat lines of the log.
\<close>

theorem heartbeat_lines:
  assumes "fst (is_running e w) = Inr False" and "0 \<le> check_interval d"
  shows "\<exists>app. fst (run e d (replicate N Wake) w) = Running
       \<and> log_of (snd (run e d (replicate N Wake) w)) (log_file d) = log_of w (log_file d) @ app
       \<and> length (heartbeats app) = N
       \<and> map counter_of (heartbeats app) = [1..<Suc N]
       \<and> map snd (heartbeats app) = map heartbeat [1..<Suc N]
       \<and> map fst (heartbeats app) = map (clock e) [reads w + 7..<reads w + 7 + N]
       \<and> (mono (clock e) \<longrightarrow> sorted (map fst (heartbeats app)))
       \<and> (heartbeats (log_of w (log_file d)) = [] \<longrightarrow>
            heartbeats (log_of (snd (run e d (replicate N Wake) w)) (log_file d)) = heartbeats app)"
proof -
  from run_wakes [OF assms, of N] obtain app where a:
    "fst (run e d (replicate N Wake) w) = Running"
    "log_of (snd (run e d (replicate N Wake) w)) (log_file d) = log_of w (log_file d) @ app"
    "heartbeats app = map (\<lambda>k. (clock e (reads w + 7 + k), heartbeat (Suc k))) [0..<N]"
    by blast
  have m0: "map counter_of (heartbeats app) = [1..<Suc N]"
    using a(3) by (simp add: o_def map_Suc_upt del: upt_Suc)
  have m1: "map snd (heartbeats app) = map heartbeat [1..<Suc N]"
    using a(3) by (simp add: o_def map_Suc_upt [symmetric] del: upt_Suc)
  have m2: "map fst (heartbeats app) = map (clock e) [reads w + 7..<reads w + 7 + N]"
    using a(3) by (simp add: o_def map_shift)
  have m3: "mono (clock e) \<longrightarrow> sorted (map fst (heartbeats app))"
    using m2 sorted_clock [of "clock e"] by simp
  have m4: "length (heartbeats app) = N" using a(3) by simp
  show ?thesis
    apply (rule exI [of _ app])
    using a(1,2) m0 m1 m2 m3 m4 by (simp add: heartbeats_append del: upt_Suc)
qed

lemma mono_steady: "mono steady"
  by (simp add: mono_def steady_def)

theorem heartbeat_lines_witness:
  "fst (is_running (env_of nobody steady) fresh) = Inr False
   \<and> 0 \<le> check_interval the_daemon \<and> mono (clock (env_of nobody steady))
   \<and> heartbeats (log_of fresh (log_file the_daemon)) = []
   \<and> fst (run (env_of nobody steady) the_daemon [Wake, Wake, Wake] fresh) = Running
   \<and> map counter_of (heartbeats
        (log_of (snd (run (env_of nobody steady) the_daemon [Wake, Wake, Wake] fresh))
           ''daemon_test.log'')) = [1, 2, 3]
   \<and> map fst (heartbeats
        (log_of (snd (run (env_of nobody steady) the_daemon [Wake, Wake, Wake] fresh))
           ''daemon_test.log'')) = [1210, 1240, 1270]"
  using heartbeat_lines [of "env_of nobody steady" fresh the_daemon "Suc (Suc (Suc 0))"]
  by (auto simp: is_running_fresh mono_steady env_of_def upt_rec steady_def)
     (simp_all add: fresh_def heartbeats_def)

text \<open>
  Claim C6 as stated fails in two ways. The log is opened for appending: a log that
  holds one heartbeat line of an earlier run holds two after one iteration, with the
  counters 1 and 1. The time stamps are readings of the wall clock: when it steps
  back between two writes, so do the time stamps of the two heartbeat lines.
\<close>

theorem second_run_heartbeats:
  "map counter_of (heartbeats
      (log_of (snd (run (env_of nobody steady) the_daemon [Wake] second_run)) ''daemon_test.log''))
     = [1, 1]
   \<and> map fst (heartbeats
      (log_of (snd (run (env_of nobody stepping_back) the_daemon [Wake, Wake] fresh))
         ''daemon_test.log''))
     = [790, 760]"
proof -
  have h: "heartbeats (log_of second_run ''daemon_test.log'') = [(900, heartbeat 1)]"
    by (simp add: second_run_def fresh_def log_of_def heartbeats_def)
  have h0: "log_of fresh ''daemon_test.log'' = []"
    by simp
  have r0: "reads fresh = 0" "reads second_run = 0"
    by (simp_all add: second_run_def fresh_def)
  from run_wakes [of "env_of nobody steady" second_run the_daemon "Suc 0"]
  have a: "map counter_of (heartbeats
      (log_of (snd (run (env_of nobody steady) the_daemon [Wake] second_run)) ''daemon_test.log''))
     = [1, 1]"
    using h by (auto simp: is_running_second_run heartbeats_append)
  from run_wakes [of "env_of nobody stepping_back" fresh the_daemon "Suc (Suc 0)"]
  have b: "map fst (heartbeats
      (log_of (snd (run (env_of nobody stepping_back) the_daemon [Wake, Wake] fresh))
         ''daemon_test.log''))
     = [790, 760]"
    using h0 r0 by (auto simp: is_running_fresh env_of_def stepping_back_def upt_rec)
  from a b show ?thesis by simp
qed

subsection \<open>The log only grows\<close>

lemma show_log_pid_file: "pid_file (show_log e w) = pid_file w"
proof -
  have "\<And>w. pid_file (fold (\<lambda>line. print (rstrip line)) ls w) = pid_file w" for ls
    by (induction ls) (simp_all add: print_def)
  then show ?thesis by (simp add: show_log_def print_def split: option.splits)
qed

lemma status_daemon_log_of: "log_of (snd (status_daemon e w)) q = log_of w q"
proof -
  have l: "logs (snd (status_daemon e w)) = logs w" by (rule status_daemon_logs)
  have "pid_file (snd (status_daemon e w)) = pid_file w
      \<or> (\<exists>p. pid_file w = Some (Pid p) \<and> pid_file (snd (status_daemon e w)) = None)"
  proof (cases "pid_file w")
    case None
    then show ?thesis by (simp add: status_daemon_def print_def)
  next
    case (Some c)
    then show ?thesis
      by (cases c)
        (auto simp: status_daemon_def os_kill_def Let_def print_def show_log_pid_file
            unlink_if_exists_def
          split: pstate.splits if_splits)
  qed
  then show ?thesis using l by (auto simp: log_of_def)
qed

text \<open>
  Claim C8, as the code has it. Take a file \<open>p\<close> other than the PID file, with any
  content. It is still there and still begins with what it held after any command of
  the script (\<^verbatim>\<open>start\<close>, \<^verbatim>\<open>stop\<close>, \<^verbatim>\<open>restart\<close>, \<^verbatim>\<open>status\<close>, with any log path, interval,
  process table, clock and events), after \<^verbatim>\<open>run\<close> and after one call of \<^verbatim>\<open>log\<close>: what
  is written goes to its end. This also holds inside one run: what the file holds while
  the daemon runs is kept by whatever the daemon does later. \<^verbatim>\<open>status\<close> leaves the
  log entries of every file as they were, those of the PID file too.
\<close>

theorem log_append_only:
  assumes "logs w p = Some es" and "p \<noteq> pid_file_name"
  shows "kept es p (snd (main e a log_path interval evs w))
       \<and> kept es p (snd (run e d evs w))
       \<and> kept es p (log e d m w)
       \<and> kept (log_of (snd (run e d evs w)) p) p (snd (run e d (evs @ later) w))
       \<and> logs (snd (main e Status log_path interval evs w)) = logs w
       \<and> logs (snd (status_daemon e w)) = logs w
       \<and> log_of (snd (status_daemon e w)) q = log_of w q"
proof -
  note np = assms(2)
  have k: "kept es p w"
    using assms by (simp add: kept_def file_exists_def log_of_def)
  have st: "kept es p (snd (stop_daemon e w'))" if "kept es p w'" for w'
    using that stop_daemon_logs [of e w'] kept_logs [OF np, of "snd (stop_daemon e w')" w' es]
    by simp
  have "kept es p (snd (main e a log_path interval evs w))"
  proof (cases a)
    case Start
    then show ?thesis using kept_run [OF np k] by (simp add: main_def)
  next
    case Stop
    then show ?thesis using st [OF k] by (simp add: main_def)
  next
    case Restart
    obtain r w1 where s: "stop_daemon e (print ''Stopping daemon...'' w) = (r, w1)"
      by (cases "stop_daemon e (print ''Stopping daemon...'' w)")
    have k1: "kept es p w1" using st [of "print ''Stopping daemon...'' w"] k s by simp
    then have "kept es p (print ''Starting daemon...'' (slept 2 w1))" by simp
    from kept_run [OF np this] k1 show ?thesis
      using Restart s by (simp add: main_def split: sum.splits)
  next
    case Status
    then show ?thesis
      using k status_daemon_logs [of e w] kept_logs [OF np, of "snd (status_daemon e w)" w es]
      by (simp add: main_def)
  qed
  moreover have "logs (snd (main e Status log_path interval evs w)) = logs w"
    using status_daemon_logs [of e w] by (simp add: main_def)
  moreover have "kept (log_of (snd (run e d evs w)) p) p (snd (run e d (evs @ later) w))"
    using kept_run [OF np k, of e d evs] kept_run_longer [OF np, of e d evs w later]
    by (simp add: kept_def)
  ultimately show ?thesis
    using status_daemon_logs [of e w] kept_run [OF np k] kept_log [OF np k]
      status_daemon_log_of [of e w q]
    by simp
qed

theorem log_append_only_witness:
  "logs second_run ''daemon_test.log'' = Some [(900, heartbeat 1)]
   \<and> ''daemon_test.log'' \<noteq> pid_file_name
   \<and> kept [(900, heartbeat 1)] ''daemon_test.log''
        (snd (main (env_of nobody steady) Restart ''daemon_test.log'' 30 [Wake, SigInt] second_run))
   \<and> kept (log_of (snd (run (env_of nobody steady) the_daemon [Wake] second_run))
              ''daemon_test.log'') ''daemon_test.log''
        (snd (run (env_of nobody steady) the_daemon [Wake, SigInt] second_run))
   \<and> logs (snd (status_daemon (env_of nobody steady) second_run)) ''daemon_test.log''
        = Some [(900, heartbeat 1)]"
  using log_append_only [of second_run "''daemon_test.log''" "[(900, heartbeat 1)]"
      "env_of nobody steady" Restart "''daemon_test.log''" 30 "[Wake, SigInt]"]
    log_append_only [of second_run "''daemon_test.log''" "[(900, heartbeat 1)]"
      "env_of nobody steady" Start "''daemon_test.log''" 30 "[Wake]" the_daemon _ "[SigInt]"]
  by (simp add: second_run_def fresh_def)

text \<open>
  Claim C8 as stated fails when the log path is the PID file, \<^verbatim>\<open>--log daemon_test.pid\<close>.
  After one iteration the running daemon has written eight lines into that file. The
  interrupt then makes \<^verbatim>\<open>remove_pid\<close> unlink the file, and the last \<^verbatim>\<open>log\<close> call
  creates it anew: it holds the one line \<^verbatim>\<open>Daemon stopped gracefully\<close>, and the eight
  earlier lines are gone.
\<close>

theorem pid_file_as_log_unlinked:
  "fst (run (env_of nobody steady) pid_logger [Wake] fresh) = Running
   \<and> length (log_of (snd (run (env_of nobody steady) pid_logger [Wake] fresh))
        ''daemon_test.pid'') = 8
   \<and> fst (run (env_of nobody steady) pid_logger [Wake, SigInt] fresh) = Returned
   \<and> log_of (snd (run (env_of nobody steady) pid_logger [Wake, SigInt] fresh)) ''daemon_test.pid''
       = [(1300, ''Daemon stopped gracefully'')]
   \<and> \<not> kept (log_of (snd (run (env_of nobody steady) pid_logger [Wake] fresh)) ''daemon_test.pid'')
        ''daemon_test.pid''
        (snd (run (env_of nobody steady) pid_logger [Wake, SigInt] fresh))"
proof -
  let ?e = "env_of nobody steady"
  have n: "''daemon_test.pid'' = pid_file_name" by (simp add: pid_file_name_def)
  have s: "fst (is_running ?e fresh) = Inr False" "0 \<le> check_interval pid_logger"
    by (simp_all add: is_running_fresh)
  from run_wakes [OF s, of "Suc 0"] obtain app where a:
    "fst (run ?e pid_logger [Wake] fresh) = Running"
    "log_of (snd (run ?e pid_logger [Wake] fresh)) pid_file_name = app" "length app = 8"
    by auto
  from run_sigint [OF s, of "Suc 0" "[]"] obtain w3 where b:
    "run ?e pid_logger [Wake, SigInt] fresh =
       (Returned,
        log ?e pid_logger ''Daemon stopped gracefully''
          (remove_pid
            (log ?e pid_logger (newline # ''Received interrupt signal, shutting down...'')
              (log ?e pid_logger (heartbeat (Suc 0 + 1)) w3))))"
    "reads w3 = reads fresh + 7 + Suc 0"
    by auto
  have r: "reads fresh = 0" by (simp add: fresh_def)
  have c: "log_of (snd (run ?e pid_logger [Wake, SigInt] fresh)) pid_file_name
      = [(1300, ''Daemon stopped gracefully'')]"
    using b r by (simp add: log_of_log_pid log_of_remove_pid env_of_def steady_def)
  have "\<not> prefix app [(1300, ''Daemon stopped gracefully'')]"
  proof
    assume "prefix app [(1300, ''Daemon stopped gracefully'')]"
    then have "length app \<le> length [(1300::nat, ''Daemon stopped gracefully'')]"
      by (rule prefix_length_le)
    then show False using a(3) by simp
  qed
  then show ?thesis using a b(1) c n by (simp add: kept_def)
qed

subsection \<open>A probe that fails\<close>

text \<open>
  Claim C10. When the PID file holds a pid and the probe \<^verbatim>\<open>os.kill(pid, 0)\<close> fails, be it
  because there is no such process or because the process is alive and belongs to
  another user, \<^verbatim>\<open>is_running\<close> removes the PID file and returns \<^verbatim>\<open>False\<close>. A
  \<^verbatim>\<open>start\<close> in this state goes on exactly as a start with no PID file does (the
  probe in the trace apart): it writes its own pid and enters the loop. The PID file
  then holds this pid, or, when the log path is the PID file itself, the start-up lines
  that were appended to it.
\<close>

theorem failed_probe_frees_start:
  assumes "pid_file w = Some (Pid p)" and "valid_pid p"
    and "procs e (length (trace w)) p = Gone \<or> procs e (length (trace w)) p = Alive_Foreign"
  shows "is_running e w = (Inr False, w\<lparr>trace := trace w @ [Kill p 0], pid_file := None\<rparr>)
       \<and> run e d evs w = run e d evs (w\<lparr>trace := trace w @ [Kill p 0], pid_file := None\<rparr>)
       \<and> run e d [] w =
           (Running, startup e d (write_pid e d (w\<lparr>trace := trace w @ [Kill p 0], pid_file := None\<rparr>)))
       \<and> pid_file (snd (run e d [] w)) =
           (if log_file d = pid_file_name
            then Some (Lines (log_of (snd (run e d [] w)) pid_file_name))
            else Some (Pid (getpid e)))"
proof -
  have pt: "pid_t p" using assms(2) by (simp add: valid_pid_def)
  let ?w1 = "w\<lparr>trace := trace w @ [Kill p 0], pid_file := None\<rparr>"
  have ir: "is_running e w = (Inr False, ?w1)"
    using assms(1,3) by (auto simp: is_running_def os_kill_cases [OF pt] remove_pid_def)
  have ir1: "is_running e ?w1 = (Inr False, ?w1)"
    by (simp add: is_running_def)
  have r: "run e d [] w = (Running, startup e d (write_pid e d ?w1))"
    using ir by (simp add: run_def)
  have "pid_file (startup e d (write_pid e d ?w1)) =
           (if log_file d = pid_file_name
            then Some (Lines (log_of (startup e d (write_pid e d ?w1)) pid_file_name))
            else Some (Pid (getpid e)))"
  proof (cases "log_file d = pid_file_name")
    case True
    then show ?thesis
      by (simp add: startup_def log_into_pid_file log_of_log_pid)
  next
    case False
    then show ?thesis using startup_facts [of e d ?w1] by auto
  qed
  then show ?thesis using ir ir1 r by (simp add: run_def)
qed

theorem failed_probe_frees_start_witness:
  "pid_file recorded_4242 = Some (Pid 4242) \<and> valid_pid 4242
   \<and> procs (env_of foreign_4242 steady) (length (trace recorded_4242)) 4242 = Alive_Foreign
   \<and> is_running (env_of foreign_4242 steady) recorded_4242 =
       (Inr False, recorded_4242\<lparr>trace := [Kill 4242 0], pid_file := None\<rparr>)
   \<and> pid_file (snd (run (env_of foreign_4242 steady) the_daemon [] recorded_4242)) = Some (Pid 5151)"
  using failed_probe_frees_start [of recorded_4242 4242 "env_of foreign_4242 steady" the_daemon "[]"]
  by (auto simp: recorded_4242_def fresh_def valid_pid_def pid_t_def env_of_def foreign_4242_def)

text \<open>When the probe succeeds, \<^verbatim>\<open>start\<close> prints the error and leaves with
  \<^verbatim>\<open>sys.exit(1)\<close>; the PID file and the logs are untouched.\<close>

lemma start_refused:
  assumes "pid_file w = Some (Pid p)" and "pid_t p"
    and "procs e (length (trace w)) p = Alive_Own"
  shows "run e d evs w =
          (Raised (SystemExit 1),
           print (''ERROR: Daemon is already running (PID file: '' @ pid_file_name @ '')'')
             (w\<lparr>trace := trace w @ [Kill p 0]\<rparr>))"
  using assms by (simp add: is_running_def run_def os_kill_cases)

lemma is_running_foreign:
  "is_running (env_of foreign_4242 steady) recorded_4242 =
     (Inr False, recorded_4242\<lparr>trace := [Kill 4242 0], pid_file := None\<rparr>)"
  by (simp add: is_running_def recorded_4242_def fresh_def os_kill_def pid_t_def env_of_def
      foreign_4242_def remove_pid_def)

text \<open>
  Claim C2 at the input where the code departs from it. The PID file names process
  4242, which is alive and belongs to another user. \<^verbatim>\<open>start\<close> is not refused: the
  daemon runs, the PID file now holds its pid 5151, and the log, empty before, has the
  seven start-up lines.
\<close>

theorem start_beside_foreign_instance:
  "pid_file recorded_4242 = Some (Pid 4242)
   \<and> procs (env_of foreign_4242 steady) 0 4242 = Alive_Foreign
   \<and> fst (main (env_of foreign_4242 steady) Start ''daemon_test.log'' 30 [] recorded_4242) = Running
   \<and> pid_file (snd (main (env_of foreign_4242 steady) Start ''daemon_test.log'' 30 [] recorded_4242))
       = Some (Pid 5151)
   \<and> log_of recorded_4242 ''daemon_test.log'' = []
   \<and> length (log_of (snd (main (env_of foreign_4242 steady) Start ''daemon_test.log'' 30 []
         recorded_4242)) ''daemon_test.log'') = 7"
proof -
  let ?e = "env_of foreign_4242 steady"
  let ?d = "SimpleDaemon ''daemon_test.log'' 30"
  let ?w1 = "recorded_4242\<lparr>trace := [Kill 4242 0], pid_file := None\<rparr>"
  have r: "main ?e Start ''daemon_test.log'' 30 [] recorded_4242
      = (Running, startup ?e ?d (write_pid ?e ?d ?w1))"
    by (simp add: main_def run_def is_running_foreign)
  have l0: "log_of ?w1 ''daemon_test.log'' = []" "log_of recorded_4242 ''daemon_test.log'' = []"
    by (simp_all add: recorded_4242_def fresh_def log_of_def)
  have d: "log_file ?d = ''daemon_test.log''" by (simp add: SimpleDaemon_def)
  from startup_facts [of ?e ?d ?w1] d obtain ss where
    "log_of (startup ?e ?d (write_pid ?e ?d ?w1)) (log_file ?d) = log_of ?w1 (log_file ?d) @ ss"
    "length ss = 7" "pid_file (startup ?e ?d (write_pid ?e ?d ?w1)) = Some (Pid (getpid ?e))"
    by auto
  then show ?thesis using r l0 d
    by (simp add: env_of_def foreign_4242_def) (simp add: recorded_4242_def)
qed

section \<open>Sample registration: names already in the table\<close>

lemma bulk_row_rows:
  "rows (bulk_row row u) =
     (if sample_exists (rows u) (strip (fst row)) then rows u
      else case snd row of Inr cols \<Rightarrow> rows u @ [(strip (fst row), cols)] | Inl x \<Rightarrow> rows u)"
  by (simp add: bulk_row_def Let_def split: sum.splits)

lemma bulk_loop_distinct:
  "distinct (map fst (rows u)) \<Longrightarrow> distinct (map fst (rows (fold bulk_row df u)))"
proof (induction df arbitrary: u)
  case Nil
  then show ?case by simp
next
  case (Cons row df)
  have "distinct (map fst (rows (bulk_row row u)))"
    using Cons.prems by (auto simp: bulk_row_rows sample_exists_def split: sum.splits)
  then show ?case using Cons.IH by simp
qed

lemma bulk_loop_counts:
  "inserted (fold bulk_row df u) + skipped (fold bulk_row df u) + length (errors (fold bulk_row df u))
     = inserted u + skipped u + length (errors u) + length df
   \<and> length (rows (fold bulk_row df u)) + inserted u = length (rows u) + inserted (fold bulk_row df u)"
proof (induction df arbitrary: u)
  case Nil
  show ?case by simp
next
  case (Cons row df)
  have "inserted (bulk_row row u) + skipped (bulk_row row u) + length (errors (bulk_row row u))
      = inserted u + skipped u + length (errors u) + 1
    \<and> length (rows (bulk_row row u)) + inserted u = length (rows u) + inserted (bulk_row row u)"
    by (simp add: bulk_row_def Let_def split: sum.splits)
  then show ?case using Cons.IH [of "bulk_row row u"] by simp
qed

lemma bulk_loop_all_exist:
  "\<forall>row \<in> set df. sample_exists (rows u) (strip (fst row)) \<Longrightarrow>
     rows (fold bulk_row df u) = rows u \<and> skipped (fold bulk_row df u) = skipped u + length df
     \<and> inserted (fold bulk_row df u) = inserted u"
proof (induction df arbitrary: u)
  case Nil
  show ?case by simp
next
  case (Cons row df)
  have b: "rows (bulk_row row u) = rows u" "skipped (bulk_row row u) = skipped u + 1"
    "inserted (bulk_row row u) = inserted u"
    using Cons.prems by (simp_all add: bulk_row_def Let_def)
  have "\<forall>r \<in> set df. sample_exists (rows (bulk_row row u)) (strip (fst r))"
    using Cons.prems b(1) by simp
  from Cons.IH [OF this] b show ?case by simp
qed

lemma register_sample_table:
  "table (snd (register_sample c sample_data s)) =
     (if c = Up \<and> \<not> sample_exists (table s) (fst sample_data)
      then table s @ [sample_data] else table s)
   \<and> fst (register_sample c sample_data s) =
     (c = Up \<and> \<not> sample_exists (table s) (fst sample_data))"
  by (cases c) (simp_all add: register_sample_def st_def)

lemma bulk_row_counters:
  "skipped (bulk_row row u) =
     (if sample_exists (rows u) (strip (fst row)) then skipped u + 1 else skipped u)
   \<and> inserted (bulk_row row u) =
     (if rows (bulk_row row u) \<noteq> rows u then inserted u + 1 else inserted u)
   \<and> (sample_exists (rows u) (strip (fst row)) \<longrightarrow> errors (bulk_row row u) = errors u)"
  by (cases "snd row") (simp_all add: bulk_row_def Let_def)

text \<open>
  Claim C9, as the code has it. \<^verbatim>\<open>register_sample\<close> looks up the name as it is given:
  if it is in the table, the function returns \<^verbatim>\<open>False\<close> and leaves the table as it is,
  whatever the state of the connection. The loop of \<^verbatim>\<open>bulk_upload\<close> looks up the name of
  the row with the white space at both ends stripped: at a row whose stripped name is in
  the table at that moment it leaves the table as it is and adds one to the count of
  skipped rows and nothing to the count of inserted rows. Conversely, whenever one of
  the two changes the table, the name looked up was absent, the change is that one row
  with this name was appended, and it is counted as inserted. For a whole upload: when
  every row's stripped name is in the table, the table stays as it is and every row is
  counted as skipped; and a table without repeated names has none after an upload or a
  registration. For a row whose name has no white space at its ends the stripped name
  is the name, and the row is skipped whenever its name is in the table.
\<close>

theorem registration_skips_existing:
  "(sample_exists (table s) (fst sample_data) \<longrightarrow>
      fst (register_sample c sample_data s) = False
      \<and> table (snd (register_sample c sample_data s)) = table s)
   \<and> (sample_exists (rows u) (strip (fst row)) \<longrightarrow>
      rows (bulk_row row u) = rows u \<and> skipped (bulk_row row u) = skipped u + 1
      \<and> inserted (bulk_row row u) = inserted u \<and> errors (bulk_row row u) = errors u)
   \<and> (table (snd (register_sample c sample_data s)) \<noteq> table s \<longrightarrow>
      \<not> sample_exists (table s) (fst sample_data)
      \<and> fst (register_sample c sample_data s) = True
      \<and> table (snd (register_sample c sample_data s)) = table s @ [sample_data])
   \<and> (rows (bulk_row row u) \<noteq> rows u \<longrightarrow>
      \<not> sample_exists (rows u) (strip (fst row))
      \<and> inserted (bulk_row row u) = inserted u + 1 \<and> skipped (bulk_row row u) = skipped u
      \<and> map fst (rows (bulk_row row u)) = map fst (rows u) @ [strip (fst row)])
   \<and> ((\<forall>r \<in> set df. sample_exists (table s) (strip (fst r))) \<longrightarrow>
      table (snd (bulk_upload c df s)) = table s
      \<and> skipped (bulk_loop df (table s)) = length df
      \<and> inserted (bulk_loop df (table s)) = 0)
   \<and> (distinct (map fst (table s)) \<longrightarrow>
      distinct (map fst (table (snd (bulk_upload c df s))))
      \<and> distinct (map fst (table (snd (register_sample c sample_data s)))))
   \<and> (strip (fst row) = fst row \<and> sample_exists (rows u) (fst row) \<longrightarrow>
      rows (bulk_row row u) = rows u \<and> skipped (bulk_row row u) = skipped u + 1
      \<and> inserted (bulk_row row u) = inserted u)"
proof -
  have a: "sample_exists (table s) (fst sample_data) \<longrightarrow>
      fst (register_sample c sample_data s) = False
      \<and> table (snd (register_sample c sample_data s)) = table s"
    using register_sample_table [of c sample_data s] by simp
  have b: "sample_exists (rows u) (strip (fst row)) \<longrightarrow>
      rows (bulk_row row u) = rows u \<and> skipped (bulk_row row u) = skipped u + 1
      \<and> inserted (bulk_row row u) = inserted u \<and> errors (bulk_row row u) = errors u"
    using bulk_row_counters [of row u] bulk_row_rows [of row u] by simp
  have c: "table (snd (register_sample c sample_data s)) \<noteq> table s \<longrightarrow>
      \<not> sample_exists (table s) (fst sample_data)
      \<and> fst (register_sample c sample_data s) = True
      \<and> table (snd (register_sample c sample_data s)) = table s @ [sample_data]"
    using register_sample_table [of c sample_data s] by (simp split: if_splits)
  have d: "rows (bulk_row row u) \<noteq> rows u \<longrightarrow>
      \<not> sample_exists (rows u) (strip (fst row))
      \<and> inserted (bulk_row row u) = inserted u + 1 \<and> skipped (bulk_row row u) = skipped u
      \<and> map fst (rows (bulk_row row u)) = map fst (rows u) @ [strip (fst row)]"
    using bulk_row_counters [of row u] bulk_row_rows [of row u]
    by (cases "snd row") (simp_all split: if_splits)
  have e: "(\<forall>r \<in> set df. sample_exists (table s) (strip (fst r))) \<longrightarrow>
      table (snd (bulk_upload c df s)) = table s
      \<and> skipped (bulk_loop df (table s)) = length df
      \<and> inserted (bulk_loop df (table s)) = 0"
  proof
    assume ex: "\<forall>r \<in> set df. sample_exists (table s) (strip (fst r))"
    from bulk_loop_all_exist
      [of df "\<lparr>inserted = 0, skipped = 0, errors = [], rows = table s, texts = []\<rparr>"]
    have f: "rows (bulk_loop df (table s)) = table s"
      "skipped (bulk_loop df (table s)) = length df"
      "inserted (bulk_loop df (table s)) = 0"
      using ex by (simp_all add: bulk_loop_def)
    have "table (snd (bulk_upload c df s)) = table s"
      using f(1) by (cases c) (simp_all add: bulk_upload_def st_def Let_def)
    with f show "table (snd (bulk_upload c df s)) = table s
      \<and> skipped (bulk_loop df (table s)) = length df
      \<and> inserted (bulk_loop df (table s)) = 0"
      by simp
  qed
  have f: "distinct (map fst (table s)) \<longrightarrow>
      distinct (map fst (table (snd (bulk_upload c df s))))
      \<and> distinct (map fst (table (snd (register_sample c sample_data s))))"
  proof
    assume d: "distinct (map fst (table s))"
    from bulk_loop_distinct
      [of "\<lparr>inserted = 0, skipped = 0, errors = [], rows = table s, texts = []\<rparr>" df]
    have "distinct (map fst (rows (bulk_loop df (table s))))"
      using d by (simp add: bulk_loop_def)
    then have 1: "distinct (map fst (table (snd (bulk_upload c df s))))"
      using d by (cases c) (simp_all add: bulk_upload_def st_def Let_def)
    have 2: "distinct (map fst (table (snd (register_sample c sample_data s))))"
      using d register_sample_table [of c sample_data s]
      by (simp add: sample_exists_def)
    from 1 2 show "distinct (map fst (table (snd (bulk_upload c df s))))
      \<and> distinct (map fst (table (snd (register_sample c sample_data s))))"
      by simp
  qed
  have g: "strip (fst row) = fst row \<and> sample_exists (rows u) (fst row) \<longrightarrow>
      rows (bulk_row row u) = rows u \<and> skipped (bulk_row row u) = skipped u + 1
      \<and> inserted (bulk_row row u) = inserted u"
    using b by auto
  from a b c d e f g show ?thesis by blast
qed

theorem registration_skips_existing_witness:
  "sample_exists (table lab_store) ''JK_9149''
   \<and> fst (register_sample Up (''JK_9149'', ()) lab_store) = False
   \<and> table (snd (register_sample Up (''JK_9149'', ()) lab_store)) = table lab_store
   \<and> sample_exists (rows lab_upload) (strip '' JK_9149 '')
   \<and> skipped (bulk_row ('' JK_9149 '', Inr ()) lab_upload) = 1
   \<and> rows (bulk_row ('' JK_9149 '', Inr ()) lab_upload) = rows lab_upload
   \<and> table (snd (bulk_upload Up [('' JK_9149 '', Inr ()), (''JK_9149'', Inr ())] lab_store))
       = table lab_store
   \<and> skipped (bulk_loop [('' JK_9149 '', Inr ()), (''JK_9149'', Inr ())] (table lab_store)) = 2
   \<and> distinct (map fst (table lab_store))
   \<and> table (snd (register_sample Up (''JK_9150'', ()) lab_store))
       = [(''JK_9149'', ()), (''JK_9150'', ())]
   \<and> rows (bulk_row (''JK_9150'', Inr ()) lab_upload) = [(''JK_9149'', ()), (''JK_9150'', ())]
   \<and> inserted (bulk_row (''JK_9150'', Inr ()) lab_upload) = 1
   \<and> strip ''JK_9149'' = ''JK_9149''
   \<and> skipped (bulk_row (''JK_9149'', Inr ()) lab_upload) = 1"
  using registration_skips_existing [of lab_store "(''JK_9149'', ())" Up lab_upload
      "('' JK_9149 '', Inr ())" "[('' JK_9149 '', Inr ()), (''JK_9149'', Inr ())]"]
    registration_skips_existing [of lab_store "(''JK_9150'', ())" Up lab_upload
      "(''JK_9150'', Inr ())" "[]"]
  by (simp add: lab_store_def lab_upload_def sample_exists_def strip_def rstrip_def is_space_def
      register_sample_def st_def bulk_row_def Let_def)

text \<open>
  Claim C9 as stated fails for a name with white space at an end. The table holds the
  name \<^verbatim>\<open>' A '\<close>, which \<^verbatim>\<open>register_sample\<close> stores as it is given. An upload with
  one row of this very name does not skip the row: it looks up \<^verbatim>\<open>'A'\<close>, finds nothing,
  inserts a row named \<^verbatim>\<open>'A'\<close> and reports one row inserted and none skipped.
\<close>

theorem bulk_upload_strips_name:
  "table (snd (register_sample Up ('' A '', ()) no_samples)) = table spaced_store
   \<and> sample_exists (table spaced_store) '' A ''
   \<and> fst (register_sample Up ('' A '', ()) spaced_store) = False
   \<and> table (snd (bulk_upload Up [('' A '', Inr ())] spaced_store)) = [('' A '', ()), (''A'', ())]
   \<and> inserted (bulk_loop [('' A '', Inr ())] (table spaced_store)) = 1
   \<and> skipped (bulk_loop [('' A '', Inr ())] (table spaced_store)) = 0"
  by (simp add: no_samples_def spaced_store_def sample_exists_def register_sample_def st_def
      bulk_upload_def bulk_loop_def bulk_row_def strip_def rstrip_def is_space_def Let_def)

end
